theory Spec2Isabelle
  imports Main "HOL-Library.AList"
begin

section \<open>Strings\<close>

text \<open>
  JavaScript strings are modelled as \<open>string\<close>, each \<open>char\<close> read as the code point of the
  same number (U+0000 to U+00FF). \<open>String.prototype.toLowerCase\<close> on that range maps
  \<open>A\<close>..\<open>Z\<close> and the Latin-1 capitals U+00C0..U+00DE (U+00D7, the multiplication sign,
  excepted) to the code point 32 above, and leaves every other code point alone.
\<close>

definition toLowerCase_char :: "char \<Rightarrow> char" where
  "toLowerCase_char c =
     (let n = (of_char c :: nat)
      in if (65 \<le> n \<and> n \<le> 90) \<or> (192 \<le> n \<and> n \<le> 222 \<and> n \<noteq> 215)
         then char_of (n + 32) else c)"

definition toLowerCase :: "string \<Rightarrow> string" where
  "toLowerCase s = map toLowerCase_char s"

definition startsWith :: "string \<Rightarrow> string \<Rightarrow> bool" where
  "startsWith s p = (take (length p) s = p)"

text \<open>\<open>s.split(sep)\<close> for a one-character separator: never an empty array.\<close>

fun split_str :: "char \<Rightarrow> string \<Rightarrow> string list" where
  "split_str sep [] = [[]]"
| "split_str sep (c # cs) =
     (if c = sep then [] # split_str sep cs
      else (case split_str sep cs of
              [] \<Rightarrow> [[c]]
            | p # ps \<Rightarrow> (c # p) # ps))"

text \<open>\<open>xs[1]\<close>: \<open>undefined\<close> (here \<open>None\<close>) when the array has fewer than two elements.\<close>

definition index1 :: "'a list \<Rightarrow> 'a option" where
  "index1 xs = (case xs of _ # t # _ \<Rightarrow> Some t | _ \<Rightarrow> None)"

section \<open>The backends\<close>

text \<open>
  The worker talks to three services: the Supabase relational store, the Supabase identity
  provider and an R2 bucket. Every call the worker issues is appended to \<open>trace\<close>, in the
  order of issue, whether it succeeds or not.
\<close>

datatype table =
    replicate_predictions | replicate_trainings | push_tokens | user_credits | transactions

datatype call =
    AuthGetUser "string option"
  | Select table string
  | DeleteEqUserId table string
  | DeleteEqId table string
  | BucketList string
  | BucketDelete "string list"
  | AuthAdminDeleteUser string

text \<open>The calls that delete something, in any of the three backends.\<close>

fun is_delete :: "call \<Rightarrow> bool" where
  "is_delete (DeleteEqUserId _ _) = True"
| "is_delete (DeleteEqId _ _) = True"
| "is_delete (BucketDelete _) = True"
| "is_delete (AuthAdminDeleteUser _) = True"
| "is_delete _ = False"

text \<open>
  A row of a table, with the columns the worker reads. \<open>output_url\<close> is \<open>None\<close> when the
  column is null or holds something that is not an array.
\<close>

record row =
  row_id :: string
  user_id :: string
  input_url :: "string option"
  output_url :: "string list option"
  input_images :: "string option"

record world =
  db :: "table \<Rightarrow> row list"
  bucket :: "string list"
  users :: "string list"
  trace :: "call list"

text \<open>
  How an awaited Supabase call ends: it resolves to \<open>{ error: null }\<close>, it resolves to an
  object carrying an \<open>error\<close>, or the promise rejects and \<open>await\<close> throws.
\<close>

datatype outcome = Fulfilled | Errored | Rejected

text \<open>
  What the worker does not control. \<open>supabase_fault\<close> and \<open>r2_rejects\<close> say which calls
  fail and how; \<open>sessions\<close> maps a bearer token to the identity it was issued for;
  \<open>page_limit\<close> is the number of keys the bucket returns for one \<open>list\<close> call (1000 for
  R2); \<open>token_error\<close> says whether the identity provider answers a token it cannot
  resolve with an \<open>error\<close> or with a null user only; \<open>absent_user_error\<close> says whether it
  answers the deletion of an identity it does not hold with an \<open>error\<close>;
  \<open>url_pathname\<close> is \<open>new URL(url).pathname\<close>, \<open>None\<close> where the constructor throws.
\<close>

record env =
  supabase_fault :: "call \<Rightarrow> outcome"
  r2_rejects :: "call \<Rightarrow> bool"
  sessions :: "string \<Rightarrow> string option"
  page_limit :: nat
  token_error :: bool
  absent_user_error :: bool
  url_pathname :: "string \<Rightarrow> string option"

text \<open>What \<open>await\<close> yields: the value the promise resolved to, or a thrown exception.\<close>

datatype 'a awaited = Value 'a | Throws

definition issue :: "call \<Rightarrow> world \<Rightarrow> world" where
  "issue c w = w\<lparr>trace := trace w @ [c]\<rparr>"

text \<open>
  \<open>supabase.auth.getUser(token)\<close> resolves to \<open>{ data: { user }, error }\<close>: the reply
  carries the user's id, if any, and whether \<open>error\<close> is set. A token resolves when it
  belongs to a session whose identity is still held by the provider.
\<close>

datatype getUser_reply = Reply "string option" bool

definition auth_getUser :: "env \<Rightarrow> string option \<Rightarrow> world \<Rightarrow> getUser_reply awaited \<times> world" where
  "auth_getUser e token w =
     (let w' = issue (AuthGetUser token) w
      in case supabase_fault e (AuthGetUser token) of
           Rejected \<Rightarrow> (Throws, w')
         | Errored \<Rightarrow> (Value (Reply None True), w')
         | Fulfilled \<Rightarrow>
             (case Option.bind token (sessions e) of
                None \<Rightarrow> (Value (Reply None (token_error e)), w')
              | Some uid \<Rightarrow>
                  if uid \<in> set (users w) then (Value (Reply (Some uid) False), w')
                  else (Value (Reply None (token_error e)), w')))"

text \<open>
  \<open>supabase.from(t).delete().eq('user_id', uid)\<close>: the value is whether \<open>error\<close> is set.
  A call that fails removes nothing.
\<close>

definition delete_eq_user_id :: "env \<Rightarrow> table \<Rightarrow> string \<Rightarrow> world \<Rightarrow> bool awaited \<times> world" where
  "delete_eq_user_id e t uid w =
     (let w' = issue (DeleteEqUserId t uid) w
      in case supabase_fault e (DeleteEqUserId t uid) of
           Rejected \<Rightarrow> (Throws, w')
         | Errored \<Rightarrow> (Value True, w')
         | Fulfilled \<Rightarrow>
             (Value False, w'\<lparr>db := (db w')(t := filter (\<lambda>r. user_id r \<noteq> uid) (db w' t))\<rparr>))"

text \<open>\<open>supabase.auth.admin.deleteUser(uid)\<close>: the value is whether \<open>error\<close> is set.\<close>

definition auth_admin_deleteUser :: "env \<Rightarrow> string \<Rightarrow> world \<Rightarrow> bool awaited \<times> world" where
  "auth_admin_deleteUser e uid w =
     (let w' = issue (AuthAdminDeleteUser uid) w
      in case supabase_fault e (AuthAdminDeleteUser uid) of
           Rejected \<Rightarrow> (Throws, w')
         | Errored \<Rightarrow> (Value True, w')
         | Fulfilled \<Rightarrow>
             if uid \<in> set (users w) then (Value False, w'\<lparr>users := removeAll uid (users w')\<rparr>)
             else (Value (absent_user_error e), w'))"

text \<open>
  \<open>bucket.list({ prefix })\<close>: one page, at most \<open>page_limit\<close> of the keys that start with
  the prefix. The worker reads \<open>objects\<close> only, so the cursor of the reply is left out.
\<close>

definition bucket_list :: "env \<Rightarrow> string \<Rightarrow> world \<Rightarrow> string list awaited \<times> world" where
  "bucket_list e pre w =
     (let w' = issue (BucketList pre) w
      in if r2_rejects e (BucketList pre) then (Throws, w')
         else (Value (take (page_limit e) (filter (\<lambda>k. startsWith k pre) (bucket w))), w'))"

text \<open>
  \<open>bucket.delete(keys)\<close>, with one key or an array of keys. Deleting a key that is not
  there is no error.
\<close>

definition bucket_delete :: "env \<Rightarrow> string list \<Rightarrow> world \<Rightarrow> unit awaited \<times> world" where
  "bucket_delete e keys w =
     (let w' = issue (BucketDelete keys) w
      in if r2_rejects e (BucketDelete keys) then (Throws, w')
         else (Value (), w'\<lparr>bucket := filter (\<lambda>k. k \<notin> set keys) (bucket w')\<rparr>))"

section \<open>Requests, responses and statements\<close>

text \<open>
  The body of the request as \<open>const { user_id } = await request.json()\<close> sees it:
  \<open>request.json()\<close> rejects (\<open>Malformed\<close>), it yields \<open>null\<close>, which cannot be destructured
  (\<open>JsonNull\<close>), or it yields a value whose \<open>user_id\<close> is absent, is not a string (the
  flag is its truthiness) or is a string.
\<close>

datatype user_id_field = Undefined | NotString bool | Str string

datatype json_body = Malformed | JsonNull | JsonValue user_id_field

record request =
  http_method :: string
  authorization :: "string option"
  body :: json_body

text \<open>The report of the second worker: the object \<open>results\<close>, its keys in insertion order.\<close>

type_synonym report = "(string \<times> string) list"

datatype payload = Text string | ErrorJson string | Deleted report

text \<open>\<open>Uncaught\<close>: the handler's promise rejects, no response is built by the worker.\<close>

datatype response = Response nat payload | Uncaught

fun status :: "response \<Rightarrow> nat option" where
  "status (Response n _) = Some n"
| "status Uncaught = None"

text \<open>A statement completes normally or abruptly, by a thrown exception.\<close>

datatype completion = Normal | Abrupt

definition seq :: "('s \<Rightarrow> completion \<times> 's) \<Rightarrow> ('s \<Rightarrow> completion \<times> 's) \<Rightarrow> 's \<Rightarrow> completion \<times> 's" where
  "seq a b s = (case a s of (Normal, s') \<Rightarrow> b s' | (Abrupt, s') \<Rightarrow> (Abrupt, s'))"

section \<open>The second worker (the one that reports per step)\<close>

text \<open>
  One relational stanza of \<open>deleteUserData\<close>:
  \<^verbatim>\<open>const { error } = await supabase.from(t).delete().eq('user_id', user_id);
  results.name = error ? 'error' : 'success';\<close>
\<close>

definition delete_rows_v2 ::
  "env \<Rightarrow> string \<Rightarrow> table \<Rightarrow> string \<Rightarrow> report \<times> world \<Rightarrow> completion \<times> report \<times> world" where
  "delete_rows_v2 e name t uid = (\<lambda>(results, w).
     case delete_eq_user_id e t uid w of
       (Throws, w') \<Rightarrow> (Abrupt, results, w')
     | (Value err, w') \<Rightarrow>
         (Normal, AList.update name (if err then ''error'' else ''success'') results, w'))"

text \<open>
  \<open>Promise.all(objects.map(obj => env.BUCKET.delete(obj.key)))\<close>: every delete is issued;
  the value is whether one of them rejected.
\<close>

fun promise_all_delete :: "env \<Rightarrow> string list \<Rightarrow> world \<Rightarrow> bool \<times> world" where
  "promise_all_delete e [] w = (False, w)"
| "promise_all_delete e (k # ks) w =
     (case bucket_delete e [k] w of
        (r, w') \<Rightarrow> (case promise_all_delete e ks w' of
                      (rs, w'') \<Rightarrow> (r = Throws \<or> rs, w'')))"

text \<open>Stanza 5, the inner \<open>try\<close> around the bucket.\<close>

definition r2_folder_v2 :: "env \<Rightarrow> string \<Rightarrow> report \<times> world \<Rightarrow> completion \<times> report \<times> world" where
  "r2_folder_v2 e uid = (\<lambda>(results, w).
     case bucket_list e (uid @ ''/'') w of
       (Throws, w') \<Rightarrow> (Normal, AList.update ''r2Folder'' ''error'' results, w')
     | (Value objects, w') \<Rightarrow>
         if length objects > 0 then
           (case promise_all_delete e objects w' of
              (rejected, w'') \<Rightarrow>
                (Normal,
                 AList.update ''r2Folder'' (if rejected then ''error'' else ''success'') results,
                 w''))
         else (Normal, AList.update ''r2Folder'' ''no files found'' results, w'))"

text \<open>Stanza 6, the identity.\<close>

definition auth_v2 :: "env \<Rightarrow> string \<Rightarrow> report \<times> world \<Rightarrow> completion \<times> report \<times> world" where
  "auth_v2 e uid = (\<lambda>(results, w).
     case auth_admin_deleteUser e uid w of
       (Throws, w') \<Rightarrow> (Abrupt, results, w')
     | (Value err, w') \<Rightarrow>
         (Normal, AList.update ''auth'' (if err then ''error'' else ''success'') results, w'))"

text \<open>The body of the outer \<open>try\<close> of \<open>deleteUserData\<close>.\<close>

definition deleteUserData_v2_try ::
  "env \<Rightarrow> string \<Rightarrow> report \<times> world \<Rightarrow> completion \<times> report \<times> world" where
  "deleteUserData_v2_try e uid =
     seq (delete_rows_v2 e ''predictions'' replicate_predictions uid)
    (seq (delete_rows_v2 e ''trainings'' replicate_trainings uid)
    (seq (delete_rows_v2 e ''pushToken'' push_tokens uid)
    (seq (delete_rows_v2 e ''credits'' user_credits uid)
    (seq (delete_rows_v2 e ''transactions'' transactions uid)
    (seq (r2_folder_v2 e uid)
         (auth_v2 e uid))))))"

definition deleteUserData_v2 :: "env \<Rightarrow> string \<Rightarrow> world \<Rightarrow> report \<times> world" where
  "deleteUserData_v2 e uid w =
     (case deleteUserData_v2_try e uid ([], w) of
        (Normal, results, w') \<Rightarrow> (results, w')
      | (Abrupt, results, w') \<Rightarrow> (AList.update ''error'' ''Process failed'' results, w'))"

definition internal_server_error :: response where
  "internal_server_error = Response 500 (ErrorJson ''Internal server error'')"

definition fetch_v2 :: "env \<Rightarrow> request \<Rightarrow> world \<Rightarrow> response \<times> world" where
  "fetch_v2 e req w =
     (if http_method req \<noteq> ''POST'' then (Response 405 (ErrorJson ''Method not allowed''), w)
      else case authorization req of
        None \<Rightarrow> (Response 401 (ErrorJson ''Unauthorized''), w)
      | Some authHeader \<Rightarrow>
          if \<not> startsWith authHeader ''Bearer '' then (Response 401 (ErrorJson ''Unauthorized''), w)
          else (case body req of
            Malformed \<Rightarrow> (internal_server_error, w)
          | JsonNull \<Rightarrow> (internal_server_error, w)
          | JsonValue uid_field \<Rightarrow>
              (case auth_getUser e (index1 (split_str CHR '' '' authHeader)) w of
                 (Throws, w') \<Rightarrow> (internal_server_error, w')
               | (Value (Reply user authError), w') \<Rightarrow>
                   if authError then (Response 401 (ErrorJson ''Invalid authentication''), w')
                   else (case user of
                     None \<Rightarrow> (Response 401 (ErrorJson ''User not found''), w')
                   | Some uid \<Rightarrow>
                       (case uid_field of
                          Str s \<Rightarrow>
                            if toLowerCase s \<noteq> toLowerCase uid
                            then (Response 403 (ErrorJson ''Unauthorized access''), w')
                            else (case deleteUserData_v2 e (toLowerCase s) w' of
                                    (result, w'') \<Rightarrow> (Response 200 (Deleted result), w''))
                        | _ \<Rightarrow> (internal_server_error, w'))))))"

section \<open>The first worker (the one that also follows the URLs stored on the rows)\<close>

text \<open>
  \<open>supabase.from(t).select(...).eq('user_id', uid)\<close> resolves to \<open>{ data, error }\<close>:
  \<open>None\<close> when \<open>error\<close> is set, the matching rows otherwise.
\<close>

definition select_eq_user_id ::
  "env \<Rightarrow> table \<Rightarrow> string \<Rightarrow> world \<Rightarrow> row list option awaited \<times> world" where
  "select_eq_user_id e t uid w =
     (let w' = issue (Select t uid) w
      in case supabase_fault e (Select t uid) of
           Rejected \<Rightarrow> (Throws, w')
         | Errored \<Rightarrow> (Value None, w')
         | Fulfilled \<Rightarrow> (Value (Some (filter (\<lambda>r. user_id r = uid) (db w t))), w'))"

text \<open>\<open>supabase.from(t).delete().eq('id', i)\<close>: the value is whether \<open>error\<close> is set.\<close>

definition delete_eq_id :: "env \<Rightarrow> table \<Rightarrow> string \<Rightarrow> world \<Rightarrow> bool awaited \<times> world" where
  "delete_eq_id e t i w =
     (let w' = issue (DeleteEqId t i) w
      in case supabase_fault e (DeleteEqId t i) of
           Rejected \<Rightarrow> (Throws, w')
         | Errored \<Rightarrow> (Value True, w')
         | Fulfilled \<Rightarrow>
             (Value False, w'\<lparr>db := (db w')(t := filter (\<lambda>r. row_id r \<noteq> i) (db w' t))\<rparr>))"

text \<open>
  An awaited call whose \<open>error\<close> is only written to the console: the statement completes
  normally unless the promise rejects.
\<close>

definition logged :: "(world \<Rightarrow> 'a awaited \<times> world) \<Rightarrow> world \<Rightarrow> completion \<times> world" where
  "logged c w = (case c w of (Throws, w') \<Rightarrow> (Abrupt, w') | (Value _, w') \<Rightarrow> (Normal, w'))"

text \<open>\<open>for (const x of xs) { ... }\<close> with awaits in the body: a throw leaves the loop.\<close>

primrec for_each :: "('a \<Rightarrow> 's \<Rightarrow> completion \<times> 's) \<Rightarrow> 'a list \<Rightarrow> 's \<Rightarrow> completion \<times> 's" where
  "for_each f [] = (\<lambda>s. (Normal, s))"
| "for_each f (x # xs) = seq (f x) (for_each f xs)"

definition skip :: "'s \<Rightarrow> completion \<times> 's" where
  "skip s = (Normal, s)"

text \<open>
  \<open>new URL(url)\<close> is outside the \<open>try\<close>: it throws on a string that is not an absolute
  URL. Inside the \<open>try\<close>, a rejected \<open>bucket.delete\<close> is written to the console.
\<close>

definition deleteR2Object :: "env \<Rightarrow> string \<Rightarrow> world \<Rightarrow> completion \<times> world" where
  "deleteR2Object e url w =
     (case url_pathname e url of
        None \<Rightarrow> (Abrupt, w)
      | Some pathname \<Rightarrow>
          (case bucket_delete e [drop 1 pathname] w of (_, w') \<Rightarrow> (Normal, w')))"

text \<open>
  \<open>url.replace(/\.[^/.]+$/, "")\<close>: the last dot and what follows it are removed when what
  follows is not empty and holds no slash.
\<close>

definition strip_extension :: "string \<Rightarrow> string" where
  "strip_extension s =
     (let plain = (\<lambda>c. c \<noteq> CHR ''.'' \<and> c \<noteq> CHR ''/'')
      in case dropWhile plain (rev s) of
           [] \<Rightarrow> s
         | c # rest \<Rightarrow>
             if c = CHR ''.'' \<and> takeWhile plain (rev s) \<noteq> [] then rev rest else s)"

text \<open>The string \<open>new URL\<close> makes of a column that may be null.\<close>

definition js_string :: "string option \<Rightarrow> string" where
  "js_string v = (case v of None \<Rightarrow> ''null'' | Some s \<Rightarrow> s)"

text \<open>The body of the loop of \<open>deletePredictions\<close>.\<close>

definition delete_prediction :: "env \<Rightarrow> row \<Rightarrow> world \<Rightarrow> completion \<times> world" where
  "delete_prediction e prediction =
     seq (case input_url prediction of
            None \<Rightarrow> skip
          | Some u \<Rightarrow>
              if u = [] then skip
              else seq (deleteR2Object e u)
                       (deleteR2Object e (strip_extension u @ ''_mask.png'')))
    (seq (case output_url prediction of
            None \<Rightarrow> skip
          | Some urls \<Rightarrow> for_each (deleteR2Object e) urls)
         (logged (delete_eq_id e replicate_predictions (row_id prediction))))"

definition deletePredictions :: "env \<Rightarrow> string \<Rightarrow> world \<Rightarrow> completion \<times> world" where
  "deletePredictions e uid w =
     (case select_eq_user_id e replicate_predictions uid w of
        (Throws, w') \<Rightarrow> (Abrupt, w')
      | (Value None, w') \<Rightarrow> (Normal, w')
      | (Value (Some predictions), w') \<Rightarrow> for_each (delete_prediction e) predictions w')"

text \<open>The body of the loop of \<open>deleteTrainings\<close>.\<close>

definition delete_training :: "env \<Rightarrow> row \<Rightarrow> world \<Rightarrow> completion \<times> world" where
  "delete_training e training =
     seq (deleteR2Object e (js_string (input_images training)))
         (logged (delete_eq_id e replicate_trainings (row_id training)))"

definition deleteTrainings :: "env \<Rightarrow> string \<Rightarrow> world \<Rightarrow> completion \<times> world" where
  "deleteTrainings e uid w =
     (case select_eq_user_id e replicate_trainings uid w of
        (Throws, w') \<Rightarrow> (Abrupt, w')
      | (Value None, w') \<Rightarrow> (Normal, w')
      | (Value (Some trainings), w') \<Rightarrow> for_each (delete_training e) trainings w')"

definition deletePushToken :: "env \<Rightarrow> string \<Rightarrow> world \<Rightarrow> completion \<times> world" where
  "deletePushToken e uid = logged (delete_eq_user_id e push_tokens uid)"

definition deleteCoinsAndTransactions :: "env \<Rightarrow> string \<Rightarrow> world \<Rightarrow> completion \<times> world" where
  "deleteCoinsAndTransactions e uid =
     seq (logged (delete_eq_user_id e user_credits uid))
         (logged (delete_eq_user_id e transactions uid))"

definition deleteUserFolder :: "env \<Rightarrow> string \<Rightarrow> world \<Rightarrow> completion \<times> world" where
  "deleteUserFolder e uid w =
     (case bucket_list e (uid @ ''/'') w of
        (Throws, w') \<Rightarrow> (Normal, w')
      | (Value objects, w') \<Rightarrow>
          if length objects > 0 then
            (case bucket_delete e objects w' of (_, w'') \<Rightarrow> (Normal, w''))
          else (Normal, w'))"

definition deleteUserAuth :: "env \<Rightarrow> string \<Rightarrow> world \<Rightarrow> completion \<times> world" where
  "deleteUserAuth e uid = logged (auth_admin_deleteUser e uid)"

definition deleteUserData_v1 :: "env \<Rightarrow> string \<Rightarrow> world \<Rightarrow> completion \<times> world" where
  "deleteUserData_v1 e uid =
     seq (deletePredictions e uid)
    (seq (deleteTrainings e uid)
    (seq (deletePushToken e uid)
    (seq (deleteCoinsAndTransactions e uid)
    (seq (deleteUserFolder e uid)
         (deleteUserAuth e uid)))))"

text \<open>
  In the first worker only the call of \<open>deleteUserData\<close> is inside a \<open>try\<close>: an exception
  thrown before it leaves the handler. \<open>token.substring\<close> throws on an undefined token, and
  \<open>user_id.toLowerCase\<close> on a truthy value that is not a string.
\<close>

definition fetch_v1 :: "env \<Rightarrow> request \<Rightarrow> world \<Rightarrow> response \<times> world" where
  "fetch_v1 e req w =
     (if http_method req \<noteq> ''POST'' then (Response 405 (Text ''Method not allowed''), w)
      else case authorization req of
        None \<Rightarrow> (Response 401 (Text ''Unauthorized''), w)
      | Some authHeader \<Rightarrow>
          if \<not> startsWith authHeader ''Bearer '' then (Response 401 (Text ''Unauthorized''), w)
          else (case index1 (split_str CHR '' '' authHeader) of
            None \<Rightarrow> (Uncaught, w)
          | Some token \<Rightarrow>
              (case auth_getUser e (Some token) w of
                 (Throws, w') \<Rightarrow> (Uncaught, w')
               | (Value (Reply user authError), w') \<Rightarrow>
                   (case (if authError then None else user) of
                      None \<Rightarrow> (Response 401 (Text ''Unauthorized''), w')
                    | Some uid \<Rightarrow>
                        (case body req of
                           Malformed \<Rightarrow> (Uncaught, w')
                         | JsonNull \<Rightarrow> (Uncaught, w')
                         | JsonValue Undefined \<Rightarrow>
                             (Response 403 (Text ''Unauthorized or invalid user_id''), w')
                         | JsonValue (NotString truthy) \<Rightarrow>
                             if truthy then (Uncaught, w')
                             else (Response 403 (Text ''Unauthorized or invalid user_id''), w')
                         | JsonValue (Str s) \<Rightarrow>
                             if s = [] \<or> toLowerCase s \<noteq> toLowerCase uid
                             then (Response 403 (Text ''Unauthorized or invalid user_id''), w')
                             else (case deleteUserData_v1 e (toLowerCase s) w' of
                                     (Normal, w'') \<Rightarrow>
                                       (Response 200 (Text ''User data deleted successfully''), w'')
                                   | (Abrupt, w'') \<Rightarrow>
                                       (Response 500 (Text ''Error deleting user data''), w'')))))))"

section \<open>Observations and sample data\<close>

text \<open>The calls issued between two states of the world.\<close>

definition calls_since :: "world \<Rightarrow> world \<Rightarrow> call list" where
  "calls_since w w' = drop (length (trace w)) (trace w')"

text \<open>The keys of a subject's namespace that are in the bucket.\<close>

definition namespace :: "string \<Rightarrow> world \<Rightarrow> string list" where
  "namespace uid w = filter (\<lambda>k. startsWith k (uid @ ''/'')) (bucket w)"

text \<open>The token does not resolve: the provider answers with an error or with no user.\<close>

definition unresolved :: "env \<Rightarrow> world \<Rightarrow> string option \<Rightarrow> bool" where
  "unresolved e w token =
     (case fst (auth_getUser e token w) of
        Value (Reply user authError) \<Rightarrow> authError \<or> user = None
      | Throws \<Rightarrow> False)"

text \<open>The token resolves to the identity \<open>uid\<close>.\<close>

definition resolves :: "env \<Rightarrow> world \<Rightarrow> string option \<Rightarrow> string \<Rightarrow> bool" where
  "resolves e w token uid = (fst (auth_getUser e token w) = Value (Reply (Some uid) False))"

text \<open>The bearer token of a header, as both workers extract it.\<close>

definition bearer :: "string \<Rightarrow> string option" where
  "bearer authHeader = index1 (split_str CHR '' '' authHeader)"

text \<open>
  A URL parser for the samples: it knows \<open>https://host/path\<close> and rejects what does not
  start with \<open>https://\<close>, as \<open>new URL\<close> rejects a string with no scheme.
\<close>

definition https_pathname :: "string \<Rightarrow> string option" where
  "https_pathname url =
     (if startsWith url ''https://''
      then Some (dropWhile (\<lambda>c. c \<noteq> CHR ''/'') (drop 8 url))
      else None)"

text \<open>Backends without faults, one session, pages of two keys.\<close>

definition calm :: env where
  "calm = \<lparr>supabase_fault = (\<lambda>_. Fulfilled), r2_rejects = (\<lambda>_. False),
           sessions = (\<lambda>t. if t = ''tok'' then Some ''abc-123'' else None),
           page_limit = 2, token_error = True, absent_user_error = True,
           url_pathname = https_pathname\<rparr>"

definition no_row :: row where
  "no_row = \<lparr>row_id = [], user_id = [], input_url = None, output_url = None,
             input_images = None\<rparr>"

definition sample_db :: "table \<Rightarrow> row list" where
  "sample_db t =
     (case t of
        replicate_predictions \<Rightarrow>
          [no_row\<lparr>row_id := ''p1'', user_id := ''abc-123'',
                  input_url := Some ''https://r2.example/abc-123/in.png'',
                  output_url := Some [''https://r2.example/abc-123/out.png'']\<rparr>]
      | replicate_trainings \<Rightarrow>
          [no_row\<lparr>row_id := ''t1'', user_id := ''abc-123'',
                  input_images := Some ''https://r2.example/abc-123/set.zip''\<rparr>]
      | _ \<Rightarrow> [no_row\<lparr>row_id := ''r1'', user_id := ''abc-123''\<rparr>])"

definition sample_world :: world where
  "sample_world = \<lparr>db = sample_db,
                   bucket = [''abc-123/in.png'', ''abc-123/out.png'', ''abc-123/set.zip'',
                             ''zed-9/in.png''],
                   users = [''abc-123'', ''zed-9''], trace = []\<rparr>"

definition post :: "string option \<Rightarrow> json_body \<Rightarrow> request" where
  "post h b = \<lparr>http_method = ''POST'', authorization = h, body = b\<rparr>"

section \<open>Notions used in the proofs\<close>

text \<open>The deletion of the identity, the call that must come last.\<close>

fun is_identity_delete :: "call \<Rightarrow> bool" where
  "is_identity_delete (AuthAdminDeleteUser _) = True"
| "is_identity_delete _ = False"

text \<open>
  The calls a statement issues from a state, read off the trace \<open>tr\<close> of the state before
  and after it.
\<close>

definition step_calls ::
  "('s \<Rightarrow> call list) \<Rightarrow> ('s \<Rightarrow> completion \<times> 's) \<Rightarrow> 's \<Rightarrow> call list" where
  "step_calls tr f s = drop (length (tr s)) (tr (snd (f s)))"

text \<open>
  \<open>attempts tr A S f\<close>: the statement \<open>f\<close> only appends to the trace, every call it issues
  is in \<open>A\<close>, and when it completes normally it has issued every call of \<open>S\<close>.
\<close>

definition attempts ::
  "('s \<Rightarrow> call list) \<Rightarrow> call set \<Rightarrow> call set \<Rightarrow> ('s \<Rightarrow> completion \<times> 's) \<Rightarrow> bool" where
  "attempts tr A S f =
     (\<forall>s. tr (snd (f s)) = tr s @ step_calls tr f s \<and>
          set (step_calls tr f s) \<subseteq> A \<and>
          (fst (f s) = Normal \<longrightarrow> S \<subseteq> set (step_calls tr f s)))"

text \<open>\<open>preserves g f\<close>: the statement \<open>f\<close> leaves the part \<open>g\<close> of the state as it was.\<close>

definition preserves :: "('s \<Rightarrow> 'a) \<Rightarrow> ('s \<Rightarrow> completion \<times> 's) \<Rightarrow> bool" where
  "preserves g f = (\<forall>s. g (snd (f s)) = g s)"

text \<open>No Supabase call rejects: every failure comes back as an \<open>error\<close> value.\<close>

definition no_reject :: "env \<Rightarrow> bool" where
  "no_reject e = (\<forall>c. supabase_fault e c \<noteq> Rejected)"


text \<open>
  The URLs the first worker hands to \<open>deleteR2Object\<close> for a prediction, for a training,
  and for all rows of a subject.
\<close>

definition prediction_urls :: "row \<Rightarrow> string list" where
  "prediction_urls p =
     (case input_url p of
        None \<Rightarrow> []
      | Some u \<Rightarrow> if u = [] then [] else [u, strip_extension u @ ''_mask.png'']) @
     (case output_url p of None \<Rightarrow> [] | Some urls \<Rightarrow> urls)"

definition training_urls :: "row \<Rightarrow> string list" where
  "training_urls t = [js_string (input_images t)]"

definition stored_urls :: "string \<Rightarrow> world \<Rightarrow> string list" where
  "stored_urls uid w =
     concat (map prediction_urls (filter (\<lambda>r. user_id r = uid) (db w replicate_predictions))) @
     concat (map training_urls (filter (\<lambda>r. user_id r = uid) (db w replicate_trainings)))"

definition urls_parse :: "env \<Rightarrow> string \<Rightarrow> world \<Rightarrow> bool" where
  "urls_parse e uid w = list_all (\<lambda>u. url_pathname e u \<noteq> None) (stored_urls uid w)"

text \<open>
  What the report of the second worker says of a call to the relational store, of the
  bucket stanza and of the identity stanza, read off the backends alone. \<open>first_page\<close> is
  what the one \<open>list\<close> call returns.
\<close>

definition reported :: "env \<Rightarrow> call \<Rightarrow> string" where
  "reported e c = (if supabase_fault e c = Errored then ''error'' else ''success'')"

definition first_page :: "env \<Rightarrow> string \<Rightarrow> world \<Rightarrow> string list" where
  "first_page e uid w = take (page_limit e) (namespace uid w)"

definition r2_status :: "env \<Rightarrow> string \<Rightarrow> world \<Rightarrow> string" where
  "r2_status e uid w =
     (if r2_rejects e (BucketList (uid @ ''/'')) then ''error''
      else if first_page e uid w = [] then ''no files found''
      else if list_ex (\<lambda>k. r2_rejects e (BucketDelete [k])) (first_page e uid w) then ''error''
      else ''success'')"

definition auth_status :: "env \<Rightarrow> string \<Rightarrow> world \<Rightarrow> string" where
  "auth_status e uid w =
     (if supabase_fault e (AuthAdminDeleteUser uid) = Errored \<or>
         (supabase_fault e (AuthAdminDeleteUser uid) = Fulfilled \<and>
          uid \<notin> set (users w) \<and> absent_user_error e)
      then ''error'' else ''success'')"

text \<open>
  The sample backends with one failure each: the trainings delete comes back with an
  \<open>error\<close>; the predictions delete rejects.
\<close>

definition trainings_fail :: env where
  "trainings_fail =
     calm\<lparr>supabase_fault :=
            (\<lambda>c. if c = DeleteEqUserId replicate_trainings ''abc-123'' then Errored
                 else Fulfilled)\<rparr>"

definition predictions_reject :: env where
  "predictions_reject =
     calm\<lparr>supabase_fault :=
            (\<lambda>c. if c = DeleteEqUserId replicate_predictions ''abc-123'' then Rejected
                 else Fulfilled)\<rparr>"

text \<open>
  Backends where every call of the pipeline fails: every Supabase call but the verification
  of the token comes back with an \<open>error\<close>, and every call to the bucket rejects.
\<close>

definition storm :: env where
  "storm =
     calm\<lparr>supabase_fault := (\<lambda>c. case c of AuthGetUser _ \<Rightarrow> Fulfilled | _ \<Rightarrow> Errored),
          r2_rejects := (\<lambda>_. True)\<rparr>"

text \<open>The sample world with a training whose \<open>input_images\<close> is null.\<close>

definition null_images_world :: world where
  "null_images_world =
     sample_world\<lparr>db := sample_db
       (replicate_trainings := [no_row\<lparr>row_id := ''t2'', user_id := ''abc-123''\<rparr>])\<rparr>"

text \<open>The world in which the first worker calls \<open>deleteUserFolder\<close>.\<close>

definition before_folder_v1 :: "env \<Rightarrow> string \<Rightarrow> world \<Rightarrow> world" where
  "before_folder_v1 e uid w =
     snd (deleteCoinsAndTransactions e uid
       (snd (deletePushToken e uid
         (snd (deleteTrainings e uid
           (snd (deletePredictions e uid w)))))))"

text \<open>The rows of a table that a \<open>select\<close> by \<open>user_id\<close> returns.\<close>

definition rows_of :: "table \<Rightarrow> string \<Rightarrow> world \<Rightarrow> row list" where
  "rows_of t uid w = filter (\<lambda>r. user_id r = uid) (db w t)"

text \<open>The sample backends when the \<open>select\<close> of the predictions comes back with an \<open>error\<close>.\<close>

definition select_fails :: env where
  "select_fails =
     calm\<lparr>supabase_fault :=
            (\<lambda>c. if c = Select replicate_predictions ''abc-123'' then Errored
                 else Fulfilled)\<rparr>"

text \<open>The sample world with one more object of the subject, which no row refers to.\<close>

definition roomy_world :: world where
  "roomy_world = sample_world\<lparr>bucket := ''abc-123/extra.bin'' # bucket sample_world\<rparr>"

section \<open>Basic facts\<close>

lemma split_str_not_Nil: "split_str sep s \<noteq> []"
  by (induction s) (auto split: list.splits)

lemma startsWith_append: "startsWith s p \<Longrightarrow> \<exists>rest. s = p @ rest"
  unfolding startsWith_def by (metis append_take_drop_id)

text \<open>A header that starts with \<open>Bearer \<close> always yields a token, possibly an empty one.\<close>

lemma bearer_Some:
  assumes "startsWith h ''Bearer ''"
  shows "\<exists>t. bearer h = Some t"
proof -
  from startsWith_append [OF assms] obtain rest where h: "h = ''Bearer '' @ rest" ..
  obtain p ps where "split_str CHR '' '' rest = p # ps"
    using split_str_not_Nil [of "CHR '' ''" rest] by (cases "split_str CHR '' '' rest") auto
  then show ?thesis
    by (simp add: h bearer_def index1_def)
qed

lemma trace_issue [simp]: "trace (issue c w) = trace w @ [c]"
  by (simp add: issue_def)

lemma calls_since_append [simp]: "trace w' = trace w @ cs \<Longrightarrow> calls_since w w' = cs"
  by (simp add: calls_since_def)

lemma calls_since_self [simp]: "calls_since w w = []"
  by (simp add: calls_since_def)

lemma auth_getUser_world [simp]: "snd (auth_getUser e t w) = issue (AuthGetUser t) w"
  by (simp add: auth_getUser_def Let_def split: outcome.splits option.splits)

lemma resolves_getUser:
  "resolves e w t uid \<Longrightarrow>
   auth_getUser e t w = (Value (Reply (Some uid) False), issue (AuthGetUser t) w)"
  unfolding resolves_def using auth_getUser_world [of e t w]
  by (cases "auth_getUser e t w") simp

section \<open>Statements and the calls they issue\<close>

lemma attemptsI:
  assumes "\<And>s. \<exists>cs. tr (snd (f s)) = tr s @ cs \<and> set cs \<subseteq> A \<and>
                    (fst (f s) = Normal \<longrightarrow> S \<subseteq> set cs)"
  shows "attempts tr A S f"
  unfolding attempts_def step_calls_def
proof
  fix s
  from assms [of s] obtain cs where "tr (snd (f s)) = tr s @ cs" "set cs \<subseteq> A"
    "fst (f s) = Normal \<longrightarrow> S \<subseteq> set cs" by blast
  then show "tr (snd (f s)) = tr s @ drop (length (tr s)) (tr (snd (f s))) \<and>
             set (drop (length (tr s)) (tr (snd (f s)))) \<subseteq> A \<and>
             (fst (f s) = Normal \<longrightarrow> S \<subseteq> set (drop (length (tr s)) (tr (snd (f s)))))"
    by simp
qed

lemma attemptsD:
  assumes "attempts tr A S f"
  shows "\<exists>cs. tr (snd (f s)) = tr s @ cs \<and> set cs \<subseteq> A \<and>
              (fst (f s) = Normal \<longrightarrow> S \<subseteq> set cs)"
  using assms unfolding attempts_def by blast

lemma attempts_seq:
  assumes a: "attempts tr A S a" and b: "attempts tr A T b"
  shows "attempts tr A (S \<union> T) (seq a b)"
proof (rule attemptsI)
  fix s
  obtain c s' where as: "a s = (c, s')" by (cases "a s")
  from attemptsD [OF a, of s] as obtain ca where
    ca: "tr s' = tr s @ ca" "set ca \<subseteq> A" "c = Normal \<longrightarrow> S \<subseteq> set ca" by auto
  show "\<exists>cs. tr (snd (seq a b s)) = tr s @ cs \<and> set cs \<subseteq> A \<and>
             (fst (seq a b s) = Normal \<longrightarrow> S \<union> T \<subseteq> set cs)"
  proof (cases c)
    case Abrupt
    with as ca show ?thesis by (simp add: seq_def)
  next
    case Normal
    from attemptsD [OF b, of s'] obtain cb where
      cb: "tr (snd (b s')) = tr s' @ cb" "set cb \<subseteq> A" "fst (b s') = Normal \<longrightarrow> T \<subseteq> set cb"
      by auto
    have "tr (snd (seq a b s)) = tr s @ (ca @ cb)"
      using as Normal ca cb by (simp add: seq_def)
    moreover have "set (ca @ cb) \<subseteq> A" using ca cb by simp
    moreover have "fst (seq a b s) = Normal \<longrightarrow> S \<union> T \<subseteq> set (ca @ cb)"
      using as Normal ca cb by (auto simp: seq_def)
    ultimately show ?thesis by blast
  qed
qed

lemma attempts_weaken: "attempts tr A S f \<Longrightarrow> T \<subseteq> S \<Longrightarrow> attempts tr A T f"
  unfolding attempts_def by blast

lemma attempts_skip: "attempts tr A {} skip"
  by (rule attemptsI) (simp add: skip_def)

lemma attempts_for_each:
  assumes "\<And>x. attempts tr A {} (f x)"
  shows "attempts tr A {} (for_each f xs)"
proof (induction xs)
  case Nil
  show ?case by (rule attemptsI) simp
next
  case (Cons x xs)
  have "attempts tr A ({} \<union> {}) (seq (f x) (for_each f xs))"
    by (rule attempts_seq [OF assms Cons])
  then show ?case by simp
qed

lemma preserves_seq: "preserves g a \<Longrightarrow> preserves g b \<Longrightarrow> preserves g (seq a b)"
  unfolding preserves_def seq_def by (auto split: prod.splits completion.splits) (metis snd_conv)+

lemma preserves_skip: "preserves g skip"
  by (simp add: preserves_def skip_def)

lemma preserves_for_each:
  assumes "\<And>x. preserves g (f x)"
  shows "preserves g (for_each f xs)"
proof (induction xs)
  case Nil
  show ?case by (simp add: preserves_def)
next
  case (Cons x xs)
  then show ?case using assms by (simp add: preserves_seq)
qed


lemma attempts_delete_eq_user_id:
  "attempts trace {c. \<not> is_identity_delete c} {DeleteEqUserId t uid} (logged (delete_eq_user_id e t uid))"
  by (rule attemptsI)
     (auto simp: logged_def delete_eq_user_id_def Let_def split: outcome.splits)

lemma attempts_delete_eq_id:
  "attempts trace {c. \<not> is_identity_delete c} {} (logged (delete_eq_id e t i))"
  by (rule attemptsI)
     (auto simp: logged_def delete_eq_id_def Let_def split: outcome.splits)

lemma attempts_deleteR2Object:
  "attempts trace {c. \<not> is_identity_delete c} {} (deleteR2Object e url)"
  by (rule attemptsI)
     (auto simp: deleteR2Object_def bucket_delete_def Let_def split: option.splits)

lemma attempts_delete_prediction:
  "attempts trace {c. \<not> is_identity_delete c} {} (delete_prediction e p)"
proof -
  have 1: "attempts trace {c. \<not> is_identity_delete c} {} (case input_url p of
            None \<Rightarrow> skip
          | Some u \<Rightarrow>
              if u = [] then skip
              else seq (deleteR2Object e u)
                       (deleteR2Object e (strip_extension u @ ''_mask.png'')))"
    using attempts_seq [OF attempts_deleteR2Object attempts_deleteR2Object]
    by (auto split: option.splits simp: attempts_skip)
  have 2: "attempts trace {c. \<not> is_identity_delete c} {} (case output_url p of
            None \<Rightarrow> skip
          | Some urls \<Rightarrow> for_each (deleteR2Object e) urls)"
    by (auto split: option.splits simp: attempts_skip attempts_for_each attempts_deleteR2Object)
  show ?thesis
    unfolding delete_prediction_def
    using attempts_seq [OF 1 attempts_seq [OF 2 attempts_delete_eq_id]] by simp
qed

lemma attempts_delete_training:
  "attempts trace {c. \<not> is_identity_delete c} {} (delete_training e t)"
  unfolding delete_training_def
  using attempts_seq [OF attempts_deleteR2Object attempts_delete_eq_id] by simp

lemma attempts_predictions_loop:
  "attempts trace {c. \<not> is_identity_delete c} {} (for_each (delete_prediction e) rows)"
  by (rule attempts_for_each) (rule attempts_delete_prediction)

lemma attempts_trainings_loop:
  "attempts trace {c. \<not> is_identity_delete c} {} (for_each (delete_training e) rows)"
  by (rule attempts_for_each) (rule attempts_delete_training)

lemma attempts_deletePredictions:
  "attempts trace {c. \<not> is_identity_delete c} {Select replicate_predictions uid}
     (deletePredictions e uid)"
proof (rule attemptsI)
  fix w
  let ?w = "issue (Select replicate_predictions uid) w"
  let ?rows = "filter (\<lambda>r. user_id r = uid) (db w replicate_predictions)"
  from attemptsD [OF attempts_predictions_loop, of e ?rows ?w]
  obtain cs where cs: "trace (snd (for_each (delete_prediction e) ?rows ?w)) = trace ?w @ cs"
    "set cs \<subseteq> {c. \<not> is_identity_delete c}"
    by blast
  show "\<exists>cs. trace (snd (deletePredictions e uid w)) = trace w @ cs \<and>
             set cs \<subseteq> {c. \<not> is_identity_delete c} \<and>
             (fst (deletePredictions e uid w) = Normal \<longrightarrow>
              {Select replicate_predictions uid} \<subseteq> set cs)"
  proof (cases "supabase_fault e (Select replicate_predictions uid)")
    case Fulfilled
    with cs show ?thesis
      by (intro exI [of _ "Select replicate_predictions uid # cs"])
         (simp add: deletePredictions_def select_eq_user_id_def Let_def issue_def)
  qed (simp_all add: deletePredictions_def select_eq_user_id_def Let_def)
qed

lemma attempts_deleteTrainings:
  "attempts trace {c. \<not> is_identity_delete c} {Select replicate_trainings uid}
     (deleteTrainings e uid)"
proof (rule attemptsI)
  fix w
  let ?w = "issue (Select replicate_trainings uid) w"
  let ?rows = "filter (\<lambda>r. user_id r = uid) (db w replicate_trainings)"
  from attemptsD [OF attempts_trainings_loop, of e ?rows ?w]
  obtain cs where cs: "trace (snd (for_each (delete_training e) ?rows ?w)) = trace ?w @ cs"
    "set cs \<subseteq> {c. \<not> is_identity_delete c}"
    by blast
  show "\<exists>cs. trace (snd (deleteTrainings e uid w)) = trace w @ cs \<and>
             set cs \<subseteq> {c. \<not> is_identity_delete c} \<and>
             (fst (deleteTrainings e uid w) = Normal \<longrightarrow>
              {Select replicate_trainings uid} \<subseteq> set cs)"
  proof (cases "supabase_fault e (Select replicate_trainings uid)")
    case Fulfilled
    with cs show ?thesis
      by (intro exI [of _ "Select replicate_trainings uid # cs"])
         (simp add: deleteTrainings_def select_eq_user_id_def Let_def issue_def)
  qed (simp_all add: deleteTrainings_def select_eq_user_id_def Let_def)
qed

lemma attempts_deletePushToken:
  "attempts trace {c. \<not> is_identity_delete c} {DeleteEqUserId push_tokens uid}
     (deletePushToken e uid)"
  unfolding deletePushToken_def by (rule attempts_delete_eq_user_id)

lemma attempts_deleteCoinsAndTransactions:
  "attempts trace {c. \<not> is_identity_delete c}
     {DeleteEqUserId user_credits uid, DeleteEqUserId transactions uid}
     (deleteCoinsAndTransactions e uid)"
proof -
  have "attempts trace {c. \<not> is_identity_delete c}
          ({DeleteEqUserId user_credits uid} \<union> {DeleteEqUserId transactions uid})
          (seq (logged (delete_eq_user_id e user_credits uid))
               (logged (delete_eq_user_id e transactions uid)))"
    by (rule attempts_seq [OF attempts_delete_eq_user_id attempts_delete_eq_user_id])
  then show ?thesis
    unfolding deleteCoinsAndTransactions_def by (rule attempts_weaken) auto
qed

lemma attempts_deleteUserFolder:
  "attempts trace {c. \<not> is_identity_delete c} {BucketList (uid @ ''/'')}
     (deleteUserFolder e uid)"
  by (rule attemptsI)
     (auto simp: deleteUserFolder_def bucket_list_def bucket_delete_def Let_def)

text \<open>Everything the first worker does before it deletes the identity.\<close>

lemma attempts_before_auth_v1:
  "attempts trace {c. \<not> is_identity_delete c}
     {Select replicate_predictions uid, Select replicate_trainings uid,
      DeleteEqUserId push_tokens uid, DeleteEqUserId user_credits uid,
      DeleteEqUserId transactions uid, BucketList (uid @ ''/'')}
     (seq (deletePredictions e uid)
     (seq (deleteTrainings e uid)
     (seq (deletePushToken e uid)
     (seq (deleteCoinsAndTransactions e uid)
          (deleteUserFolder e uid)))))"
proof -
  have "attempts trace {c. \<not> is_identity_delete c}
     ({Select replicate_predictions uid} \<union> ({Select replicate_trainings uid} \<union>
      ({DeleteEqUserId push_tokens uid} \<union>
       ({DeleteEqUserId user_credits uid, DeleteEqUserId transactions uid} \<union>
        {BucketList (uid @ ''/'')}))))
     (seq (deletePredictions e uid)
     (seq (deleteTrainings e uid)
     (seq (deletePushToken e uid)
     (seq (deleteCoinsAndTransactions e uid)
          (deleteUserFolder e uid)))))"
    by (intro attempts_seq attempts_deletePredictions attempts_deleteTrainings
          attempts_deletePushToken attempts_deleteCoinsAndTransactions
          attempts_deleteUserFolder)
  then show ?thesis
    by (rule attempts_weaken) auto
qed

lemma seq_assoc: "seq (seq a b) c = seq a (seq b c)"
  by (rule ext) (simp add: seq_def split: prod.splits completion.splits)

lemma deleteUserAuth_calls:
  "trace (snd (deleteUserAuth e uid w)) = trace w @ [AuthAdminDeleteUser uid]"
  by (simp add: deleteUserAuth_def logged_def auth_admin_deleteUser_def Let_def
           split: outcome.splits)

lemma attempts_delete_rows_v2:
  "attempts (\<lambda>s. trace (snd s)) {c. \<not> is_identity_delete c} {DeleteEqUserId t uid}
     (delete_rows_v2 e name t uid)"
  by (rule attemptsI)
     (auto simp: delete_rows_v2_def delete_eq_user_id_def Let_def split: outcome.splits)

lemma promise_all_delete_trace:
  "trace (snd (promise_all_delete e ks w)) = trace w @ map (\<lambda>k. BucketDelete [k]) ks"
  by (induction ks arbitrary: w)
     (simp_all add: bucket_delete_def Let_def case_prod_beta)

text \<open>The calls of the bucket stanza: one listing, then one delete for each key of the page.\<close>

lemma r2_folder_v2_trace:
  "trace (snd (snd (r2_folder_v2 e uid (results, w)))) =
   trace w @ BucketList (uid @ ''/'') #
     (if r2_rejects e (BucketList (uid @ ''/'')) then []
      else map (\<lambda>k. BucketDelete [k]) (take (page_limit e) (namespace uid w)))"
  by (simp add: r2_folder_v2_def bucket_list_def Let_def case_prod_beta
        promise_all_delete_trace namespace_def)

lemma r2_folder_v2_Normal: "fst (r2_folder_v2 e uid s) = Normal"
  by (cases s)
     (simp add: r2_folder_v2_def bucket_list_def Let_def case_prod_beta)

lemma attempts_r2_folder_v2:
  "attempts (\<lambda>s. trace (snd s)) {c. \<not> is_identity_delete c} {BucketList (uid @ ''/'')}
     (r2_folder_v2 e uid)"
proof (rule attemptsI)
  fix s :: "report \<times> world"
  obtain results w where s: "s = (results, w)" by (cases s)
  show "\<exists>cs. trace (snd (snd (r2_folder_v2 e uid s))) = trace (snd s) @ cs \<and>
             set cs \<subseteq> {c. \<not> is_identity_delete c} \<and>
             (fst (r2_folder_v2 e uid s) = Normal \<longrightarrow> {BucketList (uid @ ''/'')} \<subseteq> set cs)"
    unfolding s r2_folder_v2_trace by auto
qed

lemma auth_v2_calls:
  "trace (snd (snd (auth_v2 e uid s))) = trace (snd s) @ [AuthAdminDeleteUser uid]"
  by (cases s)
     (simp add: auth_v2_def auth_admin_deleteUser_def Let_def split: outcome.splits)

text \<open>Everything the second worker does before it deletes the identity.\<close>

lemma attempts_before_auth_v2:
  "attempts (\<lambda>s. trace (snd s)) {c. \<not> is_identity_delete c}
     {DeleteEqUserId replicate_predictions uid, DeleteEqUserId replicate_trainings uid,
      DeleteEqUserId push_tokens uid, DeleteEqUserId user_credits uid,
      DeleteEqUserId transactions uid, BucketList (uid @ ''/'')}
     (seq (delete_rows_v2 e ''predictions'' replicate_predictions uid)
     (seq (delete_rows_v2 e ''trainings'' replicate_trainings uid)
     (seq (delete_rows_v2 e ''pushToken'' push_tokens uid)
     (seq (delete_rows_v2 e ''credits'' user_credits uid)
     (seq (delete_rows_v2 e ''transactions'' transactions uid)
          (r2_folder_v2 e uid))))))"
proof -
  have "attempts (\<lambda>s. trace (snd s)) {c. \<not> is_identity_delete c}
     ({DeleteEqUserId replicate_predictions uid} \<union> ({DeleteEqUserId replicate_trainings uid} \<union>
      ({DeleteEqUserId push_tokens uid} \<union> ({DeleteEqUserId user_credits uid} \<union>
      ({DeleteEqUserId transactions uid} \<union> {BucketList (uid @ ''/'')})))))
     (seq (delete_rows_v2 e ''predictions'' replicate_predictions uid)
     (seq (delete_rows_v2 e ''trainings'' replicate_trainings uid)
     (seq (delete_rows_v2 e ''pushToken'' push_tokens uid)
     (seq (delete_rows_v2 e ''credits'' user_credits uid)
     (seq (delete_rows_v2 e ''transactions'' transactions uid)
          (r2_folder_v2 e uid))))))"
    by (intro attempts_seq attempts_delete_rows_v2 attempts_r2_folder_v2)
  then show ?thesis
    by (rule attempts_weaken) auto
qed

lemma deleteUserData_v1_assoc:
  "deleteUserData_v1 e uid =
     seq (seq (deletePredictions e uid)
         (seq (deleteTrainings e uid)
         (seq (deletePushToken e uid)
         (seq (deleteCoinsAndTransactions e uid)
              (deleteUserFolder e uid)))))
         (deleteUserAuth e uid)"
  by (simp add: deleteUserData_v1_def seq_assoc)

lemma deleteUserData_v2_try_assoc:
  "deleteUserData_v2_try e uid =
     seq (seq (delete_rows_v2 e ''predictions'' replicate_predictions uid)
         (seq (delete_rows_v2 e ''trainings'' replicate_trainings uid)
         (seq (delete_rows_v2 e ''pushToken'' push_tokens uid)
         (seq (delete_rows_v2 e ''credits'' user_credits uid)
         (seq (delete_rows_v2 e ''transactions'' transactions uid)
              (r2_folder_v2 e uid))))))
         (auth_v2 e uid)"
  by (simp add: deleteUserData_v2_try_def seq_assoc)

lemma calls_since_step: "calls_since w (snd (f w)) = step_calls trace f w"
  by (simp add: calls_since_def step_calls_def)

lemma calls_since_v2:
  "calls_since w (snd (deleteUserData_v2 e uid w)) =
   step_calls (\<lambda>s. trace (snd s)) (deleteUserData_v2_try e uid) ([], w)"
  by (simp add: calls_since_def step_calls_def deleteUserData_v2_def case_prod_beta
           split: completion.splits)

text \<open>A pipeline that ends with the deletion of the identity.\<close>

lemma last_call_is_identity:
  assumes pre: "attempts tr {c. \<not> is_identity_delete c} S pre"
    and auth: "\<And>s. tr (snd (auth s)) = tr s @ [AuthAdminDeleteUser uid]"
    and "list_ex is_identity_delete (step_calls tr (seq pre auth) s)"
  shows "last (step_calls tr (seq pre auth) s) = AuthAdminDeleteUser uid \<and>
         \<not> list_ex is_identity_delete (butlast (step_calls tr (seq pre auth) s)) \<and>
         S \<subseteq> set (butlast (step_calls tr (seq pre auth) s))"
proof -
  obtain c s' where p: "pre s = (c, s')" by (cases "pre s")
  from attemptsD [OF pre, of s] p obtain cs where
    cs: "tr s' = tr s @ cs" "set cs \<subseteq> {c. \<not> is_identity_delete c}" "c = Normal \<longrightarrow> S \<subseteq> set cs"
    by auto
  have notin: "\<not> list_ex is_identity_delete cs" using cs(2) by (auto simp: list_ex_iff)
  show ?thesis
  proof (cases c)
    case Abrupt
    then have "step_calls tr (seq pre auth) s = cs"
      using p cs by (simp add: step_calls_def seq_def)
    with assms(3) notin show ?thesis by simp
  next
    case Normal
    then have "step_calls tr (seq pre auth) s = cs @ [AuthAdminDeleteUser uid]"
      using p cs auth [of s'] by (simp add: step_calls_def seq_def)
    with cs Normal notin show ?thesis by simp
  qed
qed

lemma identity_last_v1:
  assumes "list_ex is_identity_delete (calls_since w (snd (deleteUserData_v1 e uid w)))"
  shows "last (calls_since w (snd (deleteUserData_v1 e uid w))) = AuthAdminDeleteUser uid \<and>
      \<not> list_ex is_identity_delete (butlast (calls_since w (snd (deleteUserData_v1 e uid w)))) \<and>
      {Select replicate_predictions uid, Select replicate_trainings uid,
           DeleteEqUserId push_tokens uid, DeleteEqUserId user_credits uid,
           DeleteEqUserId transactions uid, BucketList (uid @ ''/'')}
        \<subseteq> set (butlast (calls_since w (snd (deleteUserData_v1 e uid w))))"
proof -
  let ?pre = "seq (deletePredictions e uid)
         (seq (deleteTrainings e uid)
         (seq (deletePushToken e uid)
         (seq (deleteCoinsAndTransactions e uid)
              (deleteUserFolder e uid))))"
  have eq: "calls_since w (snd (deleteUserData_v1 e uid w)) =
            step_calls trace (seq ?pre (deleteUserAuth e uid)) w"
    by (simp only: calls_since_step deleteUserData_v1_assoc)
  have auth: "\<And>s. trace (snd (deleteUserAuth e uid s)) = trace s @ [AuthAdminDeleteUser uid]"
    by (rule deleteUserAuth_calls)
  show ?thesis
    using last_call_is_identity [where tr = trace and pre = ?pre and auth = "deleteUserAuth e uid",
        OF attempts_before_auth_v1 auth] assms
    unfolding eq by blast
qed

lemma identity_last_v2:
  assumes "list_ex is_identity_delete (calls_since w (snd (deleteUserData_v2 e uid w)))"
  shows "last (calls_since w (snd (deleteUserData_v2 e uid w))) = AuthAdminDeleteUser uid \<and>
      \<not> list_ex is_identity_delete (butlast (calls_since w (snd (deleteUserData_v2 e uid w)))) \<and>
      {DeleteEqUserId replicate_predictions uid, DeleteEqUserId replicate_trainings uid,
           DeleteEqUserId push_tokens uid, DeleteEqUserId user_credits uid,
           DeleteEqUserId transactions uid, BucketList (uid @ ''/'')}
        \<subseteq> set (butlast (calls_since w (snd (deleteUserData_v2 e uid w))))"
proof -
  let ?pre = "seq (delete_rows_v2 e ''predictions'' replicate_predictions uid)
         (seq (delete_rows_v2 e ''trainings'' replicate_trainings uid)
         (seq (delete_rows_v2 e ''pushToken'' push_tokens uid)
         (seq (delete_rows_v2 e ''credits'' user_credits uid)
         (seq (delete_rows_v2 e ''transactions'' transactions uid)
              (r2_folder_v2 e uid)))))"
  have eq: "calls_since w (snd (deleteUserData_v2 e uid w)) =
            step_calls (\<lambda>s. trace (snd s)) (seq ?pre (auth_v2 e uid)) ([], w)"
    by (simp only: calls_since_v2 deleteUserData_v2_try_assoc)
  have auth: "\<And>s. trace (snd (snd (auth_v2 e uid s))) = trace (snd s) @ [AuthAdminDeleteUser uid]"
    by (rule auth_v2_calls)
  show ?thesis
    using last_call_is_identity [where tr = "\<lambda>s. trace (snd s)" and pre = ?pre
        and auth = "auth_v2 e uid", OF attempts_before_auth_v2 auth] assms
    unfolding eq by blast
qed

section \<open>The second worker when no Supabase call rejects\<close>

lemma delete_rows_v2_no_reject:
  assumes "supabase_fault e (DeleteEqUserId t uid) \<noteq> Rejected"
  shows "\<exists>w'. delete_rows_v2 e name t uid (results, w) =
               (Normal, AList.update name (reported e (DeleteEqUserId t uid)) results, w') \<and>
              trace w' = trace w @ [DeleteEqUserId t uid] \<and>
              bucket w' = bucket w \<and> users w' = users w"
  using assms
  by (cases "supabase_fault e (DeleteEqUserId t uid)")
     (simp_all add: delete_rows_v2_def delete_eq_user_id_def reported_def issue_def)

lemma promise_all_delete_result:
  "fst (promise_all_delete e ks w) = list_ex (\<lambda>k. r2_rejects e (BucketDelete [k])) ks \<and>
   users (snd (promise_all_delete e ks w)) = users w \<and>
   db (snd (promise_all_delete e ks w)) = db w \<and>
   bucket (snd (promise_all_delete e ks w)) =
     filter (\<lambda>k. k \<notin> set (filter (\<lambda>k. \<not> r2_rejects e (BucketDelete [k])) ks)) (bucket w)"
  by (induction ks arbitrary: w)
     (auto simp: bucket_delete_def Let_def case_prod_beta issue_def intro: filter_cong)

lemma r2_folder_v2_result:
  "\<exists>w'. r2_folder_v2 e uid (results, w) =
          (Normal, AList.update ''r2Folder'' (r2_status e uid w) results, w') \<and>
        trace w' = trace w @ BucketList (uid @ ''/'') #
          (if r2_rejects e (BucketList (uid @ ''/'')) then []
           else map (\<lambda>k. BucketDelete [k]) (first_page e uid w)) \<and>
        users w' = users w \<and>
        bucket w' =
          (if r2_rejects e (BucketList (uid @ ''/'')) then bucket w
           else filter (\<lambda>k. k \<notin> set (filter (\<lambda>k. \<not> r2_rejects e (BucketDelete [k]))
                                          (first_page e uid w))) (bucket w))"
  using promise_all_delete_result [of e "first_page e uid w" "issue (BucketList (uid @ ''/'')) w"]
    promise_all_delete_trace [of e "first_page e uid w" "issue (BucketList (uid @ ''/'')) w"]
  by (simp add: r2_folder_v2_def bucket_list_def Let_def case_prod_beta r2_status_def
        first_page_def namespace_def issue_def)

lemma auth_v2_no_reject:
  assumes "supabase_fault e (AuthAdminDeleteUser uid) \<noteq> Rejected"
  shows "\<exists>w'. auth_v2 e uid (results, w) =
               (Normal, AList.update ''auth'' (auth_status e uid w) results, w') \<and>
              trace w' = trace w @ [AuthAdminDeleteUser uid] \<and>
              bucket w' = bucket w \<and>
              users w' = (if supabase_fault e (AuthAdminDeleteUser uid) = Fulfilled
                          then removeAll uid (users w) else users w)"
  using assms
  by (cases "supabase_fault e (AuthAdminDeleteUser uid)")
     (auto simp: auth_v2_def auth_admin_deleteUser_def auth_status_def issue_def Let_def)

text \<open>
  The second worker when no Supabase call rejects: the report, the calls, and what is left
  of the bucket and of the identities.
\<close>

lemma deleteUserData_v2_no_reject:
  assumes "no_reject e"
  shows "fst (deleteUserData_v2 e uid w) =
           [(''predictions'', reported e (DeleteEqUserId replicate_predictions uid)),
            (''trainings'', reported e (DeleteEqUserId replicate_trainings uid)),
            (''pushToken'', reported e (DeleteEqUserId push_tokens uid)),
            (''credits'', reported e (DeleteEqUserId user_credits uid)),
            (''transactions'', reported e (DeleteEqUserId transactions uid)),
            (''r2Folder'', r2_status e uid w),
            (''auth'', auth_status e uid w)]"
    and "trace (snd (deleteUserData_v2 e uid w)) = trace w @
           [DeleteEqUserId replicate_predictions uid, DeleteEqUserId replicate_trainings uid,
            DeleteEqUserId push_tokens uid, DeleteEqUserId user_credits uid,
            DeleteEqUserId transactions uid, BucketList (uid @ ''/'')] @
           (if r2_rejects e (BucketList (uid @ ''/'')) then []
            else map (\<lambda>k. BucketDelete [k]) (first_page e uid w)) @
           [AuthAdminDeleteUser uid]"
    and "users (snd (deleteUserData_v2 e uid w)) =
           (if supabase_fault e (AuthAdminDeleteUser uid) = Fulfilled
            then removeAll uid (users w) else users w)"
    and "bucket (snd (deleteUserData_v2 e uid w)) =
           (if r2_rejects e (BucketList (uid @ ''/'')) then bucket w
            else filter (\<lambda>k. k \<notin> set (filter (\<lambda>k. \<not> r2_rejects e (BucketDelete [k]))
                                           (first_page e uid w))) (bucket w))"
proof -
  have nr: "\<And>c. supabase_fault e c \<noteq> Rejected"
    using assms by (simp add: no_reject_def)
  obtain w1 where 1: "delete_rows_v2 e ''predictions'' replicate_predictions uid
      ([], w) =
      (Normal,
       [(''predictions'', reported e (DeleteEqUserId replicate_predictions uid))], w1)"
    "trace w1 = trace w @ [DeleteEqUserId replicate_predictions uid]"
    "bucket w1 = bucket w" "users w1 = users w"
    using delete_rows_v2_no_reject [OF nr, where t = replicate_predictions and uid = uid
        and name = "''predictions''" and results = "[]" and w = w]
    by auto
  obtain w2 where 2: "delete_rows_v2 e ''trainings'' replicate_trainings uid
      ([(''predictions'', reported e (DeleteEqUserId replicate_predictions uid))], w1) =
      (Normal,
       [(''predictions'', reported e (DeleteEqUserId replicate_predictions uid)),
       (''trainings'', reported e (DeleteEqUserId replicate_trainings uid))], w2)"
    "trace w2 = trace w1 @ [DeleteEqUserId replicate_trainings uid]"
    "bucket w2 = bucket w1" "users w2 = users w1"
    using delete_rows_v2_no_reject [OF nr, where t = replicate_trainings and uid = uid
        and name = "''trainings''" and results = "[(''predictions'', reported e (DeleteEqUserId replicate_predictions uid))]" and w = w1]
    by auto
  obtain w3 where 3: "delete_rows_v2 e ''pushToken'' push_tokens uid
      ([(''predictions'', reported e (DeleteEqUserId replicate_predictions uid)),
       (''trainings'', reported e (DeleteEqUserId replicate_trainings uid))], w2) =
      (Normal,
       [(''predictions'', reported e (DeleteEqUserId replicate_predictions uid)),
       (''trainings'', reported e (DeleteEqUserId replicate_trainings uid)),
       (''pushToken'', reported e (DeleteEqUserId push_tokens uid))], w3)"
    "trace w3 = trace w2 @ [DeleteEqUserId push_tokens uid]"
    "bucket w3 = bucket w2" "users w3 = users w2"
    using delete_rows_v2_no_reject [OF nr, where t = push_tokens and uid = uid
        and name = "''pushToken''" and results = "[(''predictions'', reported e (DeleteEqUserId replicate_predictions uid)),
       (''trainings'', reported e (DeleteEqUserId replicate_trainings uid))]" and w = w2]
    by auto
  obtain w4 where 4: "delete_rows_v2 e ''credits'' user_credits uid
      ([(''predictions'', reported e (DeleteEqUserId replicate_predictions uid)),
       (''trainings'', reported e (DeleteEqUserId replicate_trainings uid)),
       (''pushToken'', reported e (DeleteEqUserId push_tokens uid))], w3) =
      (Normal,
       [(''predictions'', reported e (DeleteEqUserId replicate_predictions uid)),
       (''trainings'', reported e (DeleteEqUserId replicate_trainings uid)),
       (''pushToken'', reported e (DeleteEqUserId push_tokens uid)),
       (''credits'', reported e (DeleteEqUserId user_credits uid))], w4)"
    "trace w4 = trace w3 @ [DeleteEqUserId user_credits uid]"
    "bucket w4 = bucket w3" "users w4 = users w3"
    using delete_rows_v2_no_reject [OF nr, where t = user_credits and uid = uid
        and name = "''credits''" and results = "[(''predictions'', reported e (DeleteEqUserId replicate_predictions uid)),
       (''trainings'', reported e (DeleteEqUserId replicate_trainings uid)),
       (''pushToken'', reported e (DeleteEqUserId push_tokens uid))]" and w = w3]
    by auto
  obtain w5 where 5: "delete_rows_v2 e ''transactions'' transactions uid
      ([(''predictions'', reported e (DeleteEqUserId replicate_predictions uid)),
       (''trainings'', reported e (DeleteEqUserId replicate_trainings uid)),
       (''pushToken'', reported e (DeleteEqUserId push_tokens uid)),
       (''credits'', reported e (DeleteEqUserId user_credits uid))], w4) =
      (Normal,
       [(''predictions'', reported e (DeleteEqUserId replicate_predictions uid)),
       (''trainings'', reported e (DeleteEqUserId replicate_trainings uid)),
       (''pushToken'', reported e (DeleteEqUserId push_tokens uid)),
       (''credits'', reported e (DeleteEqUserId user_credits uid)),
       (''transactions'', reported e (DeleteEqUserId transactions uid))], w5)"
    "trace w5 = trace w4 @ [DeleteEqUserId transactions uid]"
    "bucket w5 = bucket w4" "users w5 = users w4"
    using delete_rows_v2_no_reject [OF nr, where t = transactions and uid = uid
        and name = "''transactions''" and results = "[(''predictions'', reported e (DeleteEqUserId replicate_predictions uid)),
       (''trainings'', reported e (DeleteEqUserId replicate_trainings uid)),
       (''pushToken'', reported e (DeleteEqUserId push_tokens uid)),
       (''credits'', reported e (DeleteEqUserId user_credits uid))]" and w = w4]
    by auto
  have b5: "bucket w5 = bucket w" and u5: "users w5 = users w"
    using 1 2 3 4 5 by simp_all
  have same: "first_page e uid w5 = first_page e uid w" "r2_status e uid w5 = r2_status e uid w"
    using b5 by (simp_all add: first_page_def namespace_def r2_status_def)
  obtain w6 where 6: "r2_folder_v2 e uid
      ([(''predictions'', reported e (DeleteEqUserId replicate_predictions uid)),
       (''trainings'', reported e (DeleteEqUserId replicate_trainings uid)),
       (''pushToken'', reported e (DeleteEqUserId push_tokens uid)),
       (''credits'', reported e (DeleteEqUserId user_credits uid)),
       (''transactions'', reported e (DeleteEqUserId transactions uid))], w5) =
      (Normal,
       [(''predictions'', reported e (DeleteEqUserId replicate_predictions uid)),
       (''trainings'', reported e (DeleteEqUserId replicate_trainings uid)),
       (''pushToken'', reported e (DeleteEqUserId push_tokens uid)),
       (''credits'', reported e (DeleteEqUserId user_credits uid)),
       (''transactions'', reported e (DeleteEqUserId transactions uid)),
       (''r2Folder'', r2_status e uid w)], w6)"
    "trace w6 = trace w5 @ BucketList (uid @ ''/'') #
          (if r2_rejects e (BucketList (uid @ ''/'')) then []
           else map (\<lambda>k. BucketDelete [k]) (first_page e uid w))"
    "users w6 = users w"
    "bucket w6 =
          (if r2_rejects e (BucketList (uid @ ''/'')) then bucket w
           else filter (\<lambda>k. k \<notin> set (filter (\<lambda>k. \<not> r2_rejects e (BucketDelete [k]))
                                          (first_page e uid w))) (bucket w))"
    using r2_folder_v2_result [where e = e and uid = uid and w = w5
        and results = "[(''predictions'', reported e (DeleteEqUserId replicate_predictions uid)),
       (''trainings'', reported e (DeleteEqUserId replicate_trainings uid)),
       (''pushToken'', reported e (DeleteEqUserId push_tokens uid)),
       (''credits'', reported e (DeleteEqUserId user_credits uid)),
       (''transactions'', reported e (DeleteEqUserId transactions uid))]"] same b5 u5
    by auto
  have a6: "auth_status e uid w6 = auth_status e uid w"
    using 6(3) by (simp add: auth_status_def)
  obtain w7 where 7: "auth_v2 e uid
      ([(''predictions'', reported e (DeleteEqUserId replicate_predictions uid)),
       (''trainings'', reported e (DeleteEqUserId replicate_trainings uid)),
       (''pushToken'', reported e (DeleteEqUserId push_tokens uid)),
       (''credits'', reported e (DeleteEqUserId user_credits uid)),
       (''transactions'', reported e (DeleteEqUserId transactions uid)),
       (''r2Folder'', r2_status e uid w)], w6) =
      (Normal,
       [(''predictions'', reported e (DeleteEqUserId replicate_predictions uid)),
       (''trainings'', reported e (DeleteEqUserId replicate_trainings uid)),
       (''pushToken'', reported e (DeleteEqUserId push_tokens uid)),
       (''credits'', reported e (DeleteEqUserId user_credits uid)),
       (''transactions'', reported e (DeleteEqUserId transactions uid)),
       (''r2Folder'', r2_status e uid w),
       (''auth'', auth_status e uid w)], w7)"
    "trace w7 = trace w6 @ [AuthAdminDeleteUser uid]"
    "bucket w7 = bucket w6"
    "users w7 = (if supabase_fault e (AuthAdminDeleteUser uid) = Fulfilled
                 then removeAll uid (users w) else users w)"
    using auth_v2_no_reject [OF nr, where uid = uid and w = w6
        and results = "[(''predictions'', reported e (DeleteEqUserId replicate_predictions uid)),
       (''trainings'', reported e (DeleteEqUserId replicate_trainings uid)),
       (''pushToken'', reported e (DeleteEqUserId push_tokens uid)),
       (''credits'', reported e (DeleteEqUserId user_credits uid)),
       (''transactions'', reported e (DeleteEqUserId transactions uid)),
       (''r2Folder'', r2_status e uid w)]"] a6 6(3)
    by auto
  have run: "deleteUserData_v2 e uid w =
      ([(''predictions'', reported e (DeleteEqUserId replicate_predictions uid)),
       (''trainings'', reported e (DeleteEqUserId replicate_trainings uid)),
       (''pushToken'', reported e (DeleteEqUserId push_tokens uid)),
       (''credits'', reported e (DeleteEqUserId user_credits uid)),
       (''transactions'', reported e (DeleteEqUserId transactions uid)),
       (''r2Folder'', r2_status e uid w),
       (''auth'', auth_status e uid w)], w7)"
    by (simp add: deleteUserData_v2_def deleteUserData_v2_try_def seq_def 1 2 3 4 5 6 7)
  show "fst (deleteUserData_v2 e uid w) =
           [(''predictions'', reported e (DeleteEqUserId replicate_predictions uid)),
            (''trainings'', reported e (DeleteEqUserId replicate_trainings uid)),
            (''pushToken'', reported e (DeleteEqUserId push_tokens uid)),
            (''credits'', reported e (DeleteEqUserId user_credits uid)),
            (''transactions'', reported e (DeleteEqUserId transactions uid)),
            (''r2Folder'', r2_status e uid w),
            (''auth'', auth_status e uid w)]"
    by (simp add: run)
  show "trace (snd (deleteUserData_v2 e uid w)) = trace w @
           [DeleteEqUserId replicate_predictions uid, DeleteEqUserId replicate_trainings uid,
            DeleteEqUserId push_tokens uid, DeleteEqUserId user_credits uid,
            DeleteEqUserId transactions uid, BucketList (uid @ ''/'')] @
           (if r2_rejects e (BucketList (uid @ ''/'')) then []
            else map (\<lambda>k. BucketDelete [k]) (first_page e uid w)) @
           [AuthAdminDeleteUser uid]"
    by (simp add: run 1 2 3 4 5 6 7)
  show "users (snd (deleteUserData_v2 e uid w)) =
           (if supabase_fault e (AuthAdminDeleteUser uid) = Fulfilled
            then removeAll uid (users w) else users w)"
    by (simp add: run 7)
  show "bucket (snd (deleteUserData_v2 e uid w)) =
           (if r2_rejects e (BucketList (uid @ ''/'')) then bucket w
            else filter (\<lambda>k. k \<notin> set (filter (\<lambda>k. \<not> r2_rejects e (BucketDelete [k]))
                                           (first_page e uid w))) (bucket w))"
    by (simp add: run 7 6)
qed

text \<open>\<open>deleteR2Object\<close> throws exactly when the URL does not parse.\<close>

lemma deleteR2Object_completion:
  "fst (deleteR2Object e url w) = (if url_pathname e url = None then Abrupt else Normal)"
  by (simp add: deleteR2Object_def case_prod_beta split: option.splits)

section \<open>Requests that are not authenticated\<close>

lemma unresolved_getUser:
  assumes "unresolved e w t"
  shows "\<exists>user authError. auth_getUser e t w = (Value (Reply user authError), issue (AuthGetUser t) w) \<and>
           (authError \<or> user = None)"
proof -
  obtain r w' where a: "auth_getUser e t w = (r, w')" by (cases "auth_getUser e t w")
  have w': "w' = issue (AuthGetUser t) w"
    using auth_getUser_world [of e t w] a by simp
  from assms a obtain user authError where "r = Value (Reply user authError)" "authError \<or> user = None"
    by (auto simp: unresolved_def split: awaited.splits getUser_reply.splits)
  with a w' show ?thesis by simp
qed

lemma no_header_v1:
  assumes "http_method req = ''POST''"
    and "authorization req = None \<or> (\<exists>h. authorization req = Some h \<and> \<not> startsWith h ''Bearer '')"
  shows "fetch_v1 e req w = (Response 401 (Text ''Unauthorized''), w)"
  using assms by (auto simp: fetch_v1_def)

lemma no_header_v2:
  assumes "http_method req = ''POST''"
    and "authorization req = None \<or> (\<exists>h. authorization req = Some h \<and> \<not> startsWith h ''Bearer '')"
  shows "fetch_v2 e req w = (Response 401 (ErrorJson ''Unauthorized''), w)"
  using assms by (auto simp: fetch_v2_def)

lemma bad_token_v1:
  assumes "http_method req = ''POST''"
    and "authorization req = Some h" and "startsWith h ''Bearer ''"
    and "unresolved e w (bearer h)"
  shows "fetch_v1 e req w = (Response 401 (Text ''Unauthorized''), issue (AuthGetUser (bearer h)) w)"
proof -
  obtain t where t: "bearer h = Some t" using bearer_Some assms(3) by blast
  from unresolved_getUser [OF assms(4)] t obtain user authError where
    r: "auth_getUser e (Some t) w = (Value (Reply user authError), issue (AuthGetUser (Some t)) w)"
    "authError \<or> user = None" by auto
  have t': "index1 (split_str CHR '' '' h) = Some t" using t by (simp add: bearer_def)
  show ?thesis
    using assms(1,2,3) r by (auto simp: fetch_v1_def t' t)
qed

lemma bad_token_v2:
  assumes "http_method req = ''POST''"
    and "authorization req = Some h" and "startsWith h ''Bearer ''"
    and "unresolved e w (bearer h)"
  shows "status (fst (fetch_v2 e req w)) =
           Some (if body req = Malformed \<or> body req = JsonNull then 500 else 401) \<and>
         filter is_delete (calls_since w (snd (fetch_v2 e req w))) = []"
proof -
  from unresolved_getUser [OF assms(4)] obtain user authError where
    r: "auth_getUser e (bearer h) w = (Value (Reply user authError), issue (AuthGetUser (bearer h)) w)"
    "authError \<or> user = None" by auto
  have r': "auth_getUser e (index1 (split_str CHR '' '' h)) w =
        (Value (Reply user authError), issue (AuthGetUser (bearer h)) w)"
    using r by (simp add: bearer_def)
  show ?thesis
    using assms(1,2,3) r(2)
    by (cases "body req") (auto simp: fetch_v2_def r' internal_server_error_def)
qed

section \<open>Completion and frame of the first worker\<close>

lemma seq_fst: "fst (seq a b s) = (case fst (a s) of Normal \<Rightarrow> fst (b (snd (a s))) | Abrupt \<Rightarrow> Abrupt)"
  by (simp add: seq_def case_prod_beta split: completion.splits)

lemma seq_snd: "snd (seq a b s) = (case fst (a s) of Normal \<Rightarrow> snd (b (snd (a s))) | Abrupt \<Rightarrow> snd (a s))"
  by (simp add: seq_def case_prod_beta split: completion.splits)



lemma for_each_Normal:
  assumes "\<And>x s. x \<in> set xs \<Longrightarrow> fst (f x s) = Normal"
  shows "fst (for_each f xs s) = Normal"
  using assms by (induction xs arbitrary: s) (simp_all add: seq_fst)

lemma logged_delete_eq_id_Normal:
  "no_reject e \<Longrightarrow> fst (logged (delete_eq_id e t i) w) = Normal"
  by (cases "supabase_fault e (DeleteEqId t i)")
     (simp_all add: Let_def logged_def delete_eq_id_def no_reject_def)

lemma logged_delete_eq_user_id_Normal:
  "no_reject e \<Longrightarrow> fst (logged (delete_eq_user_id e t uid) w) = Normal"
  by (cases "supabase_fault e (DeleteEqUserId t uid)")
     (simp_all add: Let_def logged_def delete_eq_user_id_def no_reject_def)

lemma deleteUserAuth_Normal:
  "no_reject e \<Longrightarrow> fst (deleteUserAuth e uid w) = Normal"
  by (cases "supabase_fault e (AuthAdminDeleteUser uid)")
     (simp_all add: Let_def deleteUserAuth_def logged_def auth_admin_deleteUser_def no_reject_def)

lemma deleteUserFolder_Normal: "fst (deleteUserFolder e uid w) = Normal"
  by (simp add: deleteUserFolder_def bucket_list_def bucket_delete_def Let_def)

lemma delete_prediction_Normal:
  assumes "no_reject e" and "list_all (\<lambda>u. url_pathname e u \<noteq> None) (prediction_urls p)"
  shows "fst (delete_prediction e p w) = Normal"
proof -
  have a: "\<And>s. fst ((case input_url p of
            None \<Rightarrow> skip
          | Some u \<Rightarrow>
              if u = [] then skip
              else seq (deleteR2Object e u)
                       (deleteR2Object e (strip_extension u @ ''_mask.png''))) s) = Normal"
    using assms(2)
    by (auto simp: prediction_urls_def skip_def seq_fst deleteR2Object_completion
             split: option.splits)
  have b: "\<And>s. fst ((case output_url p of
            None \<Rightarrow> skip
          | Some urls \<Rightarrow> for_each (deleteR2Object e) urls) s) = Normal"
    using assms(2)
    by (auto simp: prediction_urls_def skip_def deleteR2Object_completion list_all_iff
             split: option.splits intro!: for_each_Normal)
  show ?thesis
    by (simp add: delete_prediction_def seq_fst a b logged_delete_eq_id_Normal [OF assms(1)])
qed

lemma delete_training_Normal:
  assumes "no_reject e" and "list_all (\<lambda>u. url_pathname e u \<noteq> None) (training_urls t)"
  shows "fst (delete_training e t w) = Normal"
  using assms(2)
  by (simp add: delete_training_def seq_fst training_urls_def deleteR2Object_completion
        logged_delete_eq_id_Normal [OF assms(1)])

lemma deletePredictions_Normal:
  assumes "no_reject e"
    and "list_all (\<lambda>u. url_pathname e u \<noteq> None)
           (concat (map prediction_urls (filter (\<lambda>r. user_id r = uid) (db w replicate_predictions))))"
  shows "fst (deletePredictions e uid w) = Normal"
proof (cases "supabase_fault e (Select replicate_predictions uid)")
  case Fulfilled
  have "fst (for_each (delete_prediction e)
               (filter (\<lambda>r. user_id r = uid) (db w replicate_predictions))
               (issue (Select replicate_predictions uid) w)) = Normal"
    using assms(2)
    by (intro for_each_Normal delete_prediction_Normal [OF assms(1)]) (auto simp: list_all_iff)
  then show ?thesis
    using Fulfilled by (simp add: Let_def deletePredictions_def select_eq_user_id_def)
next
  case Errored
  then show ?thesis by (simp add: Let_def deletePredictions_def select_eq_user_id_def)
next
  case Rejected
  then show ?thesis using assms(1) by (simp add: no_reject_def)
qed

lemma deleteTrainings_Normal:
  assumes "no_reject e"
    and "list_all (\<lambda>u. url_pathname e u \<noteq> None)
           (concat (map training_urls (filter (\<lambda>r. user_id r = uid) (db w replicate_trainings))))"
  shows "fst (deleteTrainings e uid w) = Normal"
proof (cases "supabase_fault e (Select replicate_trainings uid)")
  case Fulfilled
  have "fst (for_each (delete_training e)
               (filter (\<lambda>r. user_id r = uid) (db w replicate_trainings))
               (issue (Select replicate_trainings uid) w)) = Normal"
    using assms(2)
    by (intro for_each_Normal delete_training_Normal [OF assms(1)]) (auto simp: list_all_iff)
  then show ?thesis
    using Fulfilled by (simp add: Let_def deleteTrainings_def select_eq_user_id_def)
next
  case Errored
  then show ?thesis by (simp add: Let_def deleteTrainings_def select_eq_user_id_def)
next
  case Rejected
  then show ?thesis using assms(1) by (simp add: no_reject_def)
qed

text \<open>What the statements of the first worker leave alone.\<close>

lemma preservesI: "(\<And>s. g (snd (f s)) = g s) \<Longrightarrow> preserves g f"
  by (simp add: preserves_def)

lemma preservesD: "preserves g f \<Longrightarrow> g (snd (f s)) = g s"
  by (simp add: preserves_def)

lemma deleteR2Object_users: "preserves users (deleteR2Object e u)"
  by (rule preservesI)
     (simp add: Let_def deleteR2Object_def bucket_delete_def issue_def case_prod_beta split: option.splits)

lemma deleteR2Object_db: "preserves db (deleteR2Object e u)"
  by (rule preservesI)
     (simp add: Let_def deleteR2Object_def bucket_delete_def issue_def case_prod_beta split: option.splits)

lemma delete_eq_id_users: "preserves users (logged (delete_eq_id e t i))"
  by (rule preservesI)
     (simp add: Let_def logged_def delete_eq_id_def issue_def split: outcome.splits)

lemma delete_eq_id_other_table:
  "t \<noteq> t' \<Longrightarrow> preserves (\<lambda>w. db w t') (logged (delete_eq_id e t i))"
  by (rule preservesI)
     (simp add: Let_def logged_def delete_eq_id_def issue_def split: outcome.splits)


lemma preserves_db_table: "preserves db f \<Longrightarrow> preserves (\<lambda>w. db w t) f"
  by (simp add: preserves_def)

lemma deleteR2Object_table: "preserves (\<lambda>w. db w t) (deleteR2Object e u)"
  by (rule preserves_db_table) (rule deleteR2Object_db)

lemma delete_prediction_users: "preserves users (delete_prediction e p)"
  unfolding delete_prediction_def
  by (auto intro!: preserves_seq preserves_skip preserves_for_each deleteR2Object_users
        delete_eq_id_users split: option.splits)

lemma delete_prediction_trainings:
  "preserves (\<lambda>w. db w replicate_trainings) (delete_prediction e p)"
  unfolding delete_prediction_def
  by (auto intro!: preserves_seq preserves_skip preserves_for_each deleteR2Object_table
        delete_eq_id_other_table split: option.splits)


lemma deletePredictions_preserves:
  "preserves users (deletePredictions e uid)"
  "preserves (\<lambda>w. db w replicate_trainings) (deletePredictions e uid)"
proof -
  have u: "\<And>rows s. users (snd (for_each (delete_prediction e) rows s)) = users s"
    by (rule preservesD) (intro preserves_for_each delete_prediction_users)
  have d: "\<And>rows s. db (snd (for_each (delete_prediction e) rows s)) replicate_trainings =
                      db s replicate_trainings"
    by (rule preservesD [where g = "\<lambda>w. db w replicate_trainings"])
       (intro preserves_for_each delete_prediction_trainings)
  show "preserves users (deletePredictions e uid)"
    by (rule preservesI)
       (simp add: Let_def deletePredictions_def select_eq_user_id_def u issue_def split: outcome.splits)
  show "preserves (\<lambda>w. db w replicate_trainings) (deletePredictions e uid)"
    by (rule preservesI)
       (simp add: Let_def deletePredictions_def select_eq_user_id_def d issue_def split: outcome.splits)
qed




text \<open>
  The first worker completes normally when no Supabase call rejects and every URL it makes
  of the subject's rows parses.
\<close>

lemma urls_parse_issue [simp]: "urls_parse e uid (issue c w) = urls_parse e uid w"
  by (simp add: urls_parse_def stored_urls_def issue_def)

lemma deleteUserData_v1_Normal:
  assumes "no_reject e" and "urls_parse e uid w"
  shows "fst (deleteUserData_v1 e uid w) = Normal"
proof -
  have p: "fst (deletePredictions e uid w) = Normal"
    using assms by (intro deletePredictions_Normal) (simp_all add: urls_parse_def stored_urls_def)
  have "db (snd (deletePredictions e uid w)) replicate_trainings = db w replicate_trainings"
    by (rule preservesD [OF deletePredictions_preserves(2)])
  then have t: "fst (deleteTrainings e uid (snd (deletePredictions e uid w))) = Normal"
    using assms by (intro deleteTrainings_Normal) (simp_all add: urls_parse_def stored_urls_def)
  show ?thesis
    using assms(1)
    by (simp add: deleteUserData_v1_def seq_fst seq_snd p t deletePushToken_def
          deleteCoinsAndTransactions_def logged_delete_eq_user_id_Normal
          deleteUserFolder_Normal deleteUserAuth_Normal)
qed


text \<open>What both workers do with a request that is authenticated and authorized.\<close>

lemma accepted_v1:
  assumes "http_method req = ''POST''"
    and "authorization req = Some h"
    and "startsWith h ''Bearer ''"
    and "resolves e w (bearer h) uid"
    and "body req = JsonValue (Str s)"
    and "toLowerCase s = toLowerCase uid"
    and "s \<noteq> []"
  shows "fetch_v1 e req w =
           (case deleteUserData_v1 e (toLowerCase s) (issue (AuthGetUser (bearer h)) w) of
              (Normal, w'') \<Rightarrow> (Response 200 (Text ''User data deleted successfully''), w'')
            | (Abrupt, w'') \<Rightarrow> (Response 500 (Text ''Error deleting user data''), w''))"
proof -
  obtain t where t: "bearer h = Some t"
    using bearer_Some assms(3) by blast
  have r: "auth_getUser e (Some t) w =
           (Value (Reply (Some uid) False), issue (AuthGetUser (Some t)) w)"
    using resolves_getUser assms(4) t by simp
  have t': "index1 (split_str CHR '' '' h) = Some t"
    using t by (simp add: bearer_def)
  show ?thesis
    using assms(1,2,3,5,6,7) by (simp add: fetch_v1_def t' r t)
qed

lemma accepted_v2:
  assumes "http_method req = ''POST''"
    and "authorization req = Some h"
    and "startsWith h ''Bearer ''"
    and "resolves e w (bearer h) uid"
    and "body req = JsonValue (Str s)"
    and "toLowerCase s = toLowerCase uid"
  shows "fetch_v2 e req w =
           (case deleteUserData_v2 e (toLowerCase s) (issue (AuthGetUser (bearer h)) w) of
              (result, w'') \<Rightarrow> (Response 200 (Deleted result), w''))"
proof -
  have r: "auth_getUser e (index1 (split_str CHR '' '' h)) w =
           (Value (Reply (Some uid) False), issue (AuthGetUser (bearer h)) w)"
    using resolves_getUser [OF assms(4)] by (simp add: bearer_def)
  show ?thesis
    using assms(1,2,3,5,6) by (simp add: fetch_v2_def r)
qed

section \<open>Tokens of identities that are gone\<close>

text \<open>Lower-casing twice is lower-casing once.\<close>

lemma of_char_less_256: "of_char c < (256::nat)"
proof -
  have "(of_char c :: nat) mod 256 < 256" by simp
  then show ?thesis by (simp only: of_char_mod_256)
qed

lemma toLowerCase_char_idem: "toLowerCase_char (toLowerCase_char c) = toLowerCase_char c"
  using of_char_less_256 [of c] by (auto simp: toLowerCase_char_def Let_def)

lemma toLowerCase_idem: "toLowerCase (toLowerCase s) = toLowerCase s"
  by (simp add: toLowerCase_def toLowerCase_char_idem)





lemma first_page_issue [simp]: "first_page e uid (issue c w) = first_page e uid w"
  by (simp add: first_page_def namespace_def issue_def)

lemma users_issue [simp]: "users (issue c w) = users w"
  by (simp add: issue_def)

section \<open>What has been issued when the identity is deleted\<close>

lemma attempts_UNIV: "attempts tr A S f \<Longrightarrow> attempts tr UNIV {} f"
  unfolding attempts_def by simp

lemma step_calls_seq:
  assumes a: "attempts tr UNIV {} a" and b: "attempts tr UNIV {} b"
  shows "step_calls tr (seq a b) s =
           step_calls tr a s @
           (case fst (a s) of Normal \<Rightarrow> step_calls tr b (snd (a s)) | Abrupt \<Rightarrow> [])"
proof -
  have 1: "tr (snd (a s)) = tr s @ step_calls tr a s"
    using a unfolding attempts_def by blast
  have 2: "tr (snd (b (snd (a s)))) = tr (snd (a s)) @ step_calls tr b (snd (a s))"
    using b unfolding attempts_def by blast
  show ?thesis
  proof (cases "fst (a s)")
    case Normal
    then have "tr (snd (seq a b s)) = tr s @ step_calls tr a s @ step_calls tr b (snd (a s))"
      using 1 2 by (simp add: seq_snd)
    then have "step_calls tr (seq a b) s = step_calls tr a s @ step_calls tr b (snd (a s))"
      by (simp add: step_calls_def)
    with Normal show ?thesis by simp
  next
    case Abrupt
    then have "tr (snd (seq a b s)) = tr s @ step_calls tr a s"
      using 1 by (simp add: seq_snd)
    then have "step_calls tr (seq a b) s = step_calls tr a s"
      by (simp add: step_calls_def)
    with Abrupt show ?thesis by simp
  qed
qed

lemma seq_Normal_both:
  "fst (seq a b s) = Normal \<Longrightarrow> fst (a s) = Normal \<and> fst (b (snd (a s))) = Normal"
  by (cases "fst (a s)") (simp_all add: seq_fst)

text \<open>When the identity deletion is invoked, what precedes it has completed normally.\<close>

lemma identity_invoked:
  assumes pre: "attempts tr {c. \<not> is_identity_delete c} S pre"
    and auth: "\<And>s. tr (snd (auth s)) = tr s @ [AuthAdminDeleteUser uid]"
    and "list_ex is_identity_delete (step_calls tr (seq pre auth) s)"
  shows "fst (pre s) = Normal \<and>
         step_calls tr (seq pre auth) s = step_calls tr pre s @ [AuthAdminDeleteUser uid]"
proof -
  have ext: "tr (snd (pre s)) = tr s @ step_calls tr pre s"
    and ni: "set (step_calls tr pre s) \<subseteq> {c. \<not> is_identity_delete c}"
    using pre unfolding attempts_def by blast+
  have notin: "\<not> list_ex is_identity_delete (step_calls tr pre s)"
    using ni by (auto simp: list_ex_iff)
  show ?thesis
  proof (cases "fst (pre s)")
    case Abrupt
    then have "tr (snd (seq pre auth s)) = tr s @ step_calls tr pre s"
      using ext by (simp add: seq_snd)
    then have "step_calls tr (seq pre auth) s = step_calls tr pre s"
      by (simp add: step_calls_def)
    with assms(3) notin show ?thesis by simp
  next
    case Normal
    then have "tr (snd (seq pre auth s)) = tr s @ step_calls tr pre s @ [AuthAdminDeleteUser uid]"
      using ext auth [of "snd (pre s)"] by (simp add: seq_snd)
    then have "step_calls tr (seq pre auth) s = step_calls tr pre s @ [AuthAdminDeleteUser uid]"
      by (simp add: step_calls_def)
    with Normal show ?thesis by simp
  qed
qed

lemma delete_rows_v2_calls:
  "step_calls (\<lambda>s. trace (snd s)) (delete_rows_v2 e name t uid) s = [DeleteEqUserId t uid]"
  by (cases s)
     (simp add: step_calls_def delete_rows_v2_def delete_eq_user_id_def Let_def
           split: outcome.splits)

lemma delete_rows_v2_bucket:
  "bucket (snd (snd (delete_rows_v2 e name t uid s))) = bucket (snd s)"
  by (cases s)
     (simp add: delete_rows_v2_def delete_eq_user_id_def Let_def issue_def
           split: outcome.splits)

lemma r2_folder_v2_calls:
  "step_calls (\<lambda>s. trace (snd s)) (r2_folder_v2 e uid) s =
     BucketList (uid @ ''/'') #
       (if r2_rejects e (BucketList (uid @ ''/'')) then []
        else map (\<lambda>k. BucketDelete [k]) (first_page e uid (snd s)))"
  by (cases s) (simp add: step_calls_def r2_folder_v2_trace first_page_def)

lemma before_auth_v2_calls:
  assumes "fst ((seq (delete_rows_v2 e ''predictions'' replicate_predictions uid)
         (seq (delete_rows_v2 e ''trainings'' replicate_trainings uid)
         (seq (delete_rows_v2 e ''pushToken'' push_tokens uid)
         (seq (delete_rows_v2 e ''credits'' user_credits uid)
         (seq (delete_rows_v2 e ''transactions'' transactions uid)
              (r2_folder_v2 e uid)))))) ([], w)) = Normal"
  shows "step_calls (\<lambda>s. trace (snd s))
        (seq (delete_rows_v2 e ''predictions'' replicate_predictions uid)
         (seq (delete_rows_v2 e ''trainings'' replicate_trainings uid)
         (seq (delete_rows_v2 e ''pushToken'' push_tokens uid)
         (seq (delete_rows_v2 e ''credits'' user_credits uid)
         (seq (delete_rows_v2 e ''transactions'' transactions uid)
              (r2_folder_v2 e uid)))))) ([], w) =
      [DeleteEqUserId replicate_predictions uid, DeleteEqUserId replicate_trainings uid,
       DeleteEqUserId push_tokens uid, DeleteEqUserId user_credits uid,
       DeleteEqUserId transactions uid, BucketList (uid @ ''/'')] @
      (if r2_rejects e (BucketList (uid @ ''/'')) then []
       else map (\<lambda>k. BucketDelete [k]) (first_page e uid w))"
proof -
  let ?d1 = "delete_rows_v2 e ''predictions'' replicate_predictions uid"
  let ?d2 = "delete_rows_v2 e ''trainings'' replicate_trainings uid"
  let ?d3 = "delete_rows_v2 e ''pushToken'' push_tokens uid"
  let ?d4 = "delete_rows_v2 e ''credits'' user_credits uid"
  let ?d5 = "delete_rows_v2 e ''transactions'' transactions uid"
  let ?f = "r2_folder_v2 e uid"
  let ?tr = "\<lambda>s :: report \<times> world. trace (snd s)"
  let ?s0 = "([], w) :: report \<times> world"
  let ?s1 = "snd (?d1 ?s0)"
  let ?s2 = "snd (?d2 ?s1)"
  let ?s3 = "snd (?d3 ?s2)"
  let ?s4 = "snd (?d4 ?s3)"
  let ?s5 = "snd (?d5 ?s4)"
  have d: "\<And>name t. attempts ?tr UNIV {} (delete_rows_v2 e name t uid)"
    by (rule attempts_UNIV) (rule attempts_delete_rows_v2)
  have f: "attempts ?tr UNIV {} ?f"
    by (rule attempts_UNIV) (rule attempts_r2_folder_v2)
  have u: "\<And>a b. attempts ?tr UNIV {} a \<Longrightarrow> attempts ?tr UNIV {} b \<Longrightarrow>
             attempts ?tr UNIV {} (seq a b)"
    using attempts_seq [where tr = ?tr and A = UNIV and S = "{}" and T = "{}"] by simp
  have e5: "attempts ?tr UNIV {} (seq ?d5 ?f)" by (intro u d f)
  have e4: "attempts ?tr UNIV {} (seq ?d4 (seq ?d5 ?f))" by (intro u d f)
  have e3: "attempts ?tr UNIV {} (seq ?d3 (seq ?d4 (seq ?d5 ?f)))" by (intro u d f)
  have e2: "attempts ?tr UNIV {} (seq ?d2 (seq ?d3 (seq ?d4 (seq ?d5 ?f))))" by (intro u d f)
  from seq_Normal_both [OF assms] have n1: "fst (?d1 ?s0) = Normal"
    and r1: "fst (seq ?d2 (seq ?d3 (seq ?d4 (seq ?d5 ?f))) ?s1) = Normal" by simp_all
  from seq_Normal_both [OF r1] have n2: "fst (?d2 ?s1) = Normal"
    and r2: "fst (seq ?d3 (seq ?d4 (seq ?d5 ?f)) ?s2) = Normal" by simp_all
  from seq_Normal_both [OF r2] have n3: "fst (?d3 ?s2) = Normal"
    and r3: "fst (seq ?d4 (seq ?d5 ?f) ?s3) = Normal" by simp_all
  from seq_Normal_both [OF r3] have n4: "fst (?d4 ?s3) = Normal"
    and r4: "fst (seq ?d5 ?f ?s4) = Normal" by simp_all
  from seq_Normal_both [OF r4] have n5: "fst (?d5 ?s4) = Normal" by simp
  have b: "bucket (snd ?s5) = bucket w"
    by (simp add: delete_rows_v2_bucket)
  have p: "first_page e uid (snd ?s5) = first_page e uid w"
    using b by (simp add: first_page_def namespace_def)
  have c5: "step_calls ?tr (seq ?d5 ?f) ?s4 =
      DeleteEqUserId transactions uid # step_calls ?tr ?f ?s5"
    by (simp add: step_calls_seq [OF d f] n5 delete_rows_v2_calls)
  have c4: "step_calls ?tr (seq ?d4 (seq ?d5 ?f)) ?s3 =
      DeleteEqUserId user_credits uid # step_calls ?tr (seq ?d5 ?f) ?s4"
    by (simp add: step_calls_seq [OF d e5] n4 delete_rows_v2_calls)
  have c3: "step_calls ?tr (seq ?d3 (seq ?d4 (seq ?d5 ?f))) ?s2 =
      DeleteEqUserId push_tokens uid # step_calls ?tr (seq ?d4 (seq ?d5 ?f)) ?s3"
    by (simp add: step_calls_seq [OF d e4] n3 delete_rows_v2_calls)
  have c2: "step_calls ?tr (seq ?d2 (seq ?d3 (seq ?d4 (seq ?d5 ?f)))) ?s1 =
      DeleteEqUserId replicate_trainings uid # step_calls ?tr (seq ?d3 (seq ?d4 (seq ?d5 ?f))) ?s2"
    by (simp add: step_calls_seq [OF d e3] n2 delete_rows_v2_calls)
  have c1: "step_calls ?tr (seq ?d1 (seq ?d2 (seq ?d3 (seq ?d4 (seq ?d5 ?f))))) ?s0 =
      DeleteEqUserId replicate_predictions uid #
      step_calls ?tr (seq ?d2 (seq ?d3 (seq ?d4 (seq ?d5 ?f)))) ?s1"
    by (simp add: step_calls_seq [OF d e2] n1 delete_rows_v2_calls)
  show ?thesis
    by (simp only: c1 c2 c3 c4 c5 r2_folder_v2_calls p) simp
qed

lemma attempts_delete_eq_id_call:
  "attempts trace {c. \<not> is_identity_delete c} {DeleteEqId t i} (logged (delete_eq_id e t i))"
  by (rule attemptsI)
     (auto simp: logged_def delete_eq_id_def Let_def split: outcome.splits)

lemma attempts_delete_prediction_call:
  "attempts trace {c. \<not> is_identity_delete c} {DeleteEqId replicate_predictions (row_id p)}
     (delete_prediction e p)"
proof -
  have 1: "attempts trace {c. \<not> is_identity_delete c} {} (case input_url p of
            None \<Rightarrow> skip
          | Some u \<Rightarrow>
              if u = [] then skip
              else seq (deleteR2Object e u)
                       (deleteR2Object e (strip_extension u @ ''_mask.png'')))"
    using attempts_seq [OF attempts_deleteR2Object attempts_deleteR2Object]
    by (auto split: option.splits simp: attempts_skip)
  have 2: "attempts trace {c. \<not> is_identity_delete c} {} (case output_url p of
            None \<Rightarrow> skip
          | Some urls \<Rightarrow> for_each (deleteR2Object e) urls)"
    by (auto split: option.splits simp: attempts_skip attempts_for_each attempts_deleteR2Object)
  show ?thesis
    unfolding delete_prediction_def
    using attempts_seq [OF 1 attempts_seq [OF 2 attempts_delete_eq_id_call]] by simp
qed

lemma attempts_delete_training_call:
  "attempts trace {c. \<not> is_identity_delete c} {DeleteEqId replicate_trainings (row_id t)}
     (delete_training e t)"
  unfolding delete_training_def
  using attempts_seq [OF attempts_deleteR2Object attempts_delete_eq_id_call] by simp

lemma attempts_for_each_all:
  assumes "\<And>x. attempts tr A (S x) (f x)"
  shows "attempts tr A (\<Union>x\<in>set xs. S x) (for_each f xs)"
proof (induction xs)
  case Nil
  show ?case by (rule attemptsI) simp
next
  case (Cons x xs)
  have "attempts tr A (S x \<union> (\<Union>x\<in>set xs. S x)) (seq (f x) (for_each f xs))"
    by (rule attempts_seq [OF assms Cons])
  then show ?case by simp
qed

text \<open>A loop over rows that completes normally has deleted every row by its id.\<close>

lemma predictions_loop_calls:
  assumes "fst (for_each (delete_prediction e) rows s) = Normal"
    and "r \<in> set rows"
  shows "DeleteEqId replicate_predictions (row_id r)
           \<in> set (step_calls trace (for_each (delete_prediction e) rows) s)"
proof -
  have "attempts trace {c. \<not> is_identity_delete c}
          (\<Union>p\<in>set rows. {DeleteEqId replicate_predictions (row_id p)})
          (for_each (delete_prediction e) rows)"
    by (rule attempts_for_each_all) (rule attempts_delete_prediction_call)
  then show ?thesis
    using assms unfolding attempts_def by blast
qed

lemma trainings_loop_calls:
  assumes "fst (for_each (delete_training e) rows s) = Normal"
    and "r \<in> set rows"
  shows "DeleteEqId replicate_trainings (row_id r)
           \<in> set (step_calls trace (for_each (delete_training e) rows) s)"
proof -
  have "attempts trace {c. \<not> is_identity_delete c}
          (\<Union>p\<in>set rows. {DeleteEqId replicate_trainings (row_id p)})
          (for_each (delete_training e) rows)"
    by (rule attempts_for_each_all) (rule attempts_delete_training_call)
  then show ?thesis
    using assms unfolding attempts_def by blast
qed

lemma deletePredictions_calls:
  assumes "fst (deletePredictions e uid w) = Normal"
    and "supabase_fault e (Select replicate_predictions uid) = Fulfilled"
    and "r \<in> set (rows_of replicate_predictions uid w)"
  shows "DeleteEqId replicate_predictions (row_id r)
           \<in> set (step_calls trace (deletePredictions e uid) w)"
proof -
  let ?w = "issue (Select replicate_predictions uid) w"
  let ?rows = "rows_of replicate_predictions uid w"
  have run: "deletePredictions e uid w = for_each (delete_prediction e) ?rows ?w"
    using assms(2) by (simp add: deletePredictions_def select_eq_user_id_def rows_of_def)
  have n: "fst (for_each (delete_prediction e) ?rows ?w) = Normal"
    using assms(1) by (simp add: run)
  define cs where "cs = step_calls trace (for_each (delete_prediction e) ?rows) ?w"
  have ext: "trace (snd (for_each (delete_prediction e) ?rows ?w)) = trace ?w @ cs"
    using attempts_predictions_loop [of e ?rows] unfolding attempts_def cs_def by blast
  have "step_calls trace (deletePredictions e uid) w = Select replicate_predictions uid # cs"
    by (simp add: step_calls_def run ext)
  then show ?thesis
    using predictions_loop_calls [OF n assms(3)] by (simp add: cs_def)
qed

lemma deleteTrainings_calls:
  assumes "fst (deleteTrainings e uid w) = Normal"
    and "supabase_fault e (Select replicate_trainings uid) = Fulfilled"
    and "r \<in> set (rows_of replicate_trainings uid w)"
  shows "DeleteEqId replicate_trainings (row_id r)
           \<in> set (step_calls trace (deleteTrainings e uid) w)"
proof -
  let ?w = "issue (Select replicate_trainings uid) w"
  let ?rows = "rows_of replicate_trainings uid w"
  have run: "deleteTrainings e uid w = for_each (delete_training e) ?rows ?w"
    using assms(2) by (simp add: deleteTrainings_def select_eq_user_id_def rows_of_def)
  have n: "fst (for_each (delete_training e) ?rows ?w) = Normal"
    using assms(1) by (simp add: run)
  define cs where "cs = step_calls trace (for_each (delete_training e) ?rows) ?w"
  have ext: "trace (snd (for_each (delete_training e) ?rows ?w)) = trace ?w @ cs"
    using attempts_trainings_loop [of e ?rows] unfolding attempts_def cs_def by blast
  have "step_calls trace (deleteTrainings e uid) w = Select replicate_trainings uid # cs"
    by (simp add: step_calls_def run ext)
  then show ?thesis
    using trainings_loop_calls [OF n assms(3)] by (simp add: cs_def)
qed

lemma deleteUserFolder_calls:
  "step_calls trace (deleteUserFolder e uid) w =
     BucketList (uid @ ''/'') #
       (if r2_rejects e (BucketList (uid @ ''/'')) \<or> first_page e uid w = [] then []
        else [BucketDelete (first_page e uid w)])"
  by (simp add: step_calls_def deleteUserFolder_def bucket_list_def bucket_delete_def Let_def
        first_page_def namespace_def)

text \<open>
  What the first worker has issued when everything before the identity deletion has
  completed normally.
\<close>

lemma before_auth_v1_calls:
  assumes "fst ((seq (deletePredictions e uid)
         (seq (deleteTrainings e uid)
         (seq (deletePushToken e uid)
         (seq (deleteCoinsAndTransactions e uid)
              (deleteUserFolder e uid))))) w) = Normal"
  shows "(supabase_fault e (Select replicate_predictions uid) = Fulfilled \<longrightarrow>
            (\<forall>r\<in>set (rows_of replicate_predictions uid w).
               DeleteEqId replicate_predictions (row_id r) \<in> set (step_calls trace
                 (seq (deletePredictions e uid)
                 (seq (deleteTrainings e uid)
                 (seq (deletePushToken e uid)
                 (seq (deleteCoinsAndTransactions e uid)
                      (deleteUserFolder e uid))))) w))) \<and>
         (supabase_fault e (Select replicate_trainings uid) = Fulfilled \<longrightarrow>
            (\<forall>r\<in>set (rows_of replicate_trainings uid w).
               DeleteEqId replicate_trainings (row_id r) \<in> set (step_calls trace
                 (seq (deletePredictions e uid)
                 (seq (deleteTrainings e uid)
                 (seq (deletePushToken e uid)
                 (seq (deleteCoinsAndTransactions e uid)
                      (deleteUserFolder e uid))))) w))) \<and>
         (\<not> r2_rejects e (BucketList (uid @ ''/'')) \<and>
          first_page e uid (before_folder_v1 e uid w) \<noteq> [] \<longrightarrow>
            BucketDelete (first_page e uid (before_folder_v1 e uid w)) \<in> set (step_calls trace
                 (seq (deletePredictions e uid)
                 (seq (deleteTrainings e uid)
                 (seq (deletePushToken e uid)
                 (seq (deleteCoinsAndTransactions e uid)
                      (deleteUserFolder e uid))))) w))"
proof -
  let ?P = "deletePredictions e uid"
  let ?T = "deleteTrainings e uid"
  let ?U = "deletePushToken e uid"
  let ?C = "deleteCoinsAndTransactions e uid"
  let ?F = "deleteUserFolder e uid"
  let ?w1 = "snd (?P w)"
  let ?w2 = "snd (?T ?w1)"
  let ?w3 = "snd (?U ?w2)"
  let ?w4 = "snd (?C ?w3)"
  have aP: "attempts trace UNIV {} ?P" by (rule attempts_UNIV) (rule attempts_deletePredictions)
  have aT: "attempts trace UNIV {} ?T" by (rule attempts_UNIV) (rule attempts_deleteTrainings)
  have aU: "attempts trace UNIV {} ?U" by (rule attempts_UNIV) (rule attempts_deletePushToken)
  have aC: "attempts trace UNIV {} ?C"
    by (rule attempts_UNIV) (rule attempts_deleteCoinsAndTransactions)
  have aF: "attempts trace UNIV {} ?F" by (rule attempts_UNIV) (rule attempts_deleteUserFolder)
  have u: "\<And>a b. attempts trace UNIV {} a \<Longrightarrow> attempts trace UNIV {} b \<Longrightarrow>
             attempts trace UNIV {} (seq a b)"
    using attempts_seq [where tr = trace and A = UNIV and S = "{}" and T = "{}"] by simp
  have e4: "attempts trace UNIV {} (seq ?C ?F)" by (intro u aC aF)
  have e3: "attempts trace UNIV {} (seq ?U (seq ?C ?F))" by (intro u aU aC aF)
  have e2: "attempts trace UNIV {} (seq ?T (seq ?U (seq ?C ?F)))" by (intro u aT aU aC aF)
  from seq_Normal_both [OF assms] have n1: "fst (?P w) = Normal"
    and r1: "fst (seq ?T (seq ?U (seq ?C ?F)) ?w1) = Normal" by simp_all
  from seq_Normal_both [OF r1] have n2: "fst (?T ?w1) = Normal"
    and r2: "fst (seq ?U (seq ?C ?F) ?w2) = Normal" by simp_all
  from seq_Normal_both [OF r2] have n3: "fst (?U ?w2) = Normal"
    and r3: "fst (seq ?C ?F ?w3) = Normal" by simp_all
  from seq_Normal_both [OF r3] have n4: "fst (?C ?w3) = Normal" by simp
  have c: "step_calls trace (seq ?P (seq ?T (seq ?U (seq ?C ?F)))) w =
           step_calls trace ?P w @ step_calls trace ?T ?w1 @ step_calls trace ?U ?w2 @
           step_calls trace ?C ?w3 @ step_calls trace ?F ?w4"
    by (simp add: step_calls_seq [OF aP e2] step_calls_seq [OF aT e3]
          step_calls_seq [OF aU e4] step_calls_seq [OF aC aF] n1 n2 n3 n4)
  have rows: "rows_of replicate_trainings uid ?w1 = rows_of replicate_trainings uid w"
    using preservesD [OF deletePredictions_preserves(2), of e uid w]
    by (simp add: rows_of_def)
  have w4: "?w4 = before_folder_v1 e uid w"
    by (simp add: before_folder_v1_def)
  have p: "supabase_fault e (Select replicate_predictions uid) = Fulfilled \<Longrightarrow>
           r \<in> set (rows_of replicate_predictions uid w) \<Longrightarrow>
           DeleteEqId replicate_predictions (row_id r) \<in> set (step_calls trace ?P w)" for r
    by (rule deletePredictions_calls [OF n1])
  have t: "supabase_fault e (Select replicate_trainings uid) = Fulfilled \<Longrightarrow>
           r \<in> set (rows_of replicate_trainings uid w) \<Longrightarrow>
           DeleteEqId replicate_trainings (row_id r) \<in> set (step_calls trace ?T ?w1)" for r
    using deleteTrainings_calls [OF n2, of r] rows by simp
  have f: "\<not> r2_rejects e (BucketList (uid @ ''/'')) \<Longrightarrow>
           first_page e uid (before_folder_v1 e uid w) \<noteq> [] \<Longrightarrow>
           BucketDelete (first_page e uid (before_folder_v1 e uid w))
             \<in> set (step_calls trace ?F ?w4)"
    by (simp add: deleteUserFolder_calls w4)
  show ?thesis
    unfolding c using p t f by auto
qed

text \<open>A string that equals a non-empty one up to case is not empty.\<close>

lemma lower_not_Nil: "toLowerCase s = toLowerCase uid \<Longrightarrow> uid \<noteq> [] \<Longrightarrow> s \<noteq> []"
  by (auto simp: toLowerCase_def)

section \<open>Evaluating the samples\<close>

text \<open>The subject ids of the samples, in lower case.\<close>

lemma sample_lower:
  "toLowerCase ''ABC-123'' = ''abc-123''"
  "toLowerCase ''abc-123'' = ''abc-123''"
  by code_simp+

lemmas run_defs = seq_def deletePredictions_def deleteTrainings_def deletePushToken_def
  deleteCoinsAndTransactions_def deleteUserFolder_def deleteUserAuth_def deleteUserData_v1_def
  select_eq_user_id_def delete_eq_id_def delete_eq_user_id_def logged_def skip_def
  deleteR2Object_def strip_extension_def js_string_def delete_prediction_def delete_training_def
  bucket_list_def bucket_delete_def auth_admin_deleteUser_def auth_getUser_def issue_def
  delete_rows_v2_def r2_folder_v2_def auth_v2_def deleteUserData_v2_try_def
  deleteUserData_v2_def fetch_v1_def fetch_v2_def internal_server_error_def
  calm_def sample_world_def sample_db_def no_row_def post_def https_pathname_def
  startsWith_def index1_def bearer_def
  calls_since_def namespace_def resolves_def unresolved_def

section \<open>Malformed bodies in the second worker\<close>

text \<open>
  C10. In the second worker the body is parsed before the token is verified: a POST request
  with a Bearer header and a body that is not JSON is answered 500, whatever the token is,
  and the identity provider is not even asked (no call is issued at all).
\<close>

theorem malformed_body_is_500_v2:
  assumes "http_method req = ''POST''"
    and "authorization req = Some h"
    and "startsWith h ''Bearer ''"
    and "body req = Malformed"
  shows "status (fst (fetch_v2 e req w)) = Some 500 \<and> snd (fetch_v2 e req w) = w"
  using assms by (simp add: fetch_v2_def internal_server_error_def)

text \<open>The token \<open>nobody\<close> belongs to no session, and the answer is 500 all the same.\<close>

theorem malformed_body_is_500_v2_witness:
  "status (fst (fetch_v2 calm (post (Some ''Bearer nobody'') Malformed) sample_world)) = Some 500 \<and>
   snd (fetch_v2 calm (post (Some ''Bearer nobody'') Malformed) sample_world) = sample_world"
proof -
  have 1: "http_method (post (Some ''Bearer nobody'') Malformed) = ''POST''"
    by (simp add: post_def)
  have 2: "authorization (post (Some ''Bearer nobody'') Malformed) = Some ''Bearer nobody''"
    by (simp add: post_def)
  have 3: "startsWith ''Bearer nobody'' ''Bearer ''"
    by (simp add: startsWith_def)
  have 4: "body (post (Some ''Bearer nobody'') Malformed) = Malformed"
    by (simp add: post_def)
  show ?thesis by (rule malformed_body_is_500_v2 [OF 1 2 3 4])
qed

section \<open>The subject must be the caller\<close>

text \<open>
  C3. A POST request with a bearer token that resolves to an identity, and a body whose
  \<open>user_id\<close>, in lower case, differs from the identity's id, in lower case, is answered
  403 by both workers, and no delete call reaches any backend.
\<close>

theorem mismatch_is_403:
  assumes "http_method req = ''POST''"
    and "authorization req = Some h"
    and "startsWith h ''Bearer ''"
    and "resolves e w (bearer h) uid"
    and "body req = JsonValue (Str s)"
    and "toLowerCase s \<noteq> toLowerCase uid"
  shows "status (fst (fetch_v1 e req w)) = Some 403 \<and>
         filter is_delete (calls_since w (snd (fetch_v1 e req w))) = [] \<and>
         status (fst (fetch_v2 e req w)) = Some 403 \<and>
         filter is_delete (calls_since w (snd (fetch_v2 e req w))) = []"
proof -
  obtain t where t: "bearer h = Some t"
    using bearer_Some assms(3) by blast
  have r: "auth_getUser e (Some t) w =
           (Value (Reply (Some uid) False), issue (AuthGetUser (Some t)) w)"
    using resolves_getUser assms(4) t by simp
  have t': "index1 (split_str CHR '' '' h) = Some t"
    using t by (simp add: bearer_def)
  have v1: "fetch_v1 e req w =
            (Response 403 (Text ''Unauthorized or invalid user_id''), issue (AuthGetUser (Some t)) w)"
    using assms(1,2,3,5,6) by (simp add: fetch_v1_def t' r)
  have v2: "fetch_v2 e req w =
            (Response 403 (ErrorJson ''Unauthorized access''), issue (AuthGetUser (Some t)) w)"
    using assms(1,2,3,5,6) by (simp add: fetch_v2_def t' r)
  show ?thesis by (simp add: v1 v2)
qed

text \<open>The caller is \<open>abc-123\<close> and asks for the erasure of \<open>zed-9\<close>.\<close>

theorem mismatch_is_403_witness:
  "status (fst (fetch_v1 calm (post (Some ''Bearer tok'') (JsonValue (Str ''ZED-9''))) sample_world))
     = Some 403 \<and>
   filter is_delete (calls_since sample_world
     (snd (fetch_v1 calm (post (Some ''Bearer tok'') (JsonValue (Str ''ZED-9''))) sample_world))) = [] \<and>
   status (fst (fetch_v2 calm (post (Some ''Bearer tok'') (JsonValue (Str ''ZED-9''))) sample_world))
     = Some 403 \<and>
   filter is_delete (calls_since sample_world
     (snd (fetch_v2 calm (post (Some ''Bearer tok'') (JsonValue (Str ''ZED-9''))) sample_world))) = []"
proof -
  have 1: "http_method (post (Some ''Bearer tok'') (JsonValue (Str ''ZED-9''))) = ''POST''"
    by (simp add: post_def)
  have 2: "authorization (post (Some ''Bearer tok'') (JsonValue (Str ''ZED-9'')))
           = Some ''Bearer tok''"
    by (simp add: post_def)
  have 3: "startsWith ''Bearer tok'' ''Bearer ''"
    by (simp add: startsWith_def)
  have 4: "resolves calm sample_world (bearer ''Bearer tok'') ''abc-123''"
    by code_simp
  have 5: "body (post (Some ''Bearer tok'') (JsonValue (Str ''ZED-9''))) = JsonValue (Str ''ZED-9'')"
    by (simp add: post_def)
  have 6: "toLowerCase ''ZED-9'' \<noteq> toLowerCase ''abc-123''"
    by code_simp
  show ?thesis by (rule mismatch_is_403 [OF 1 2 3 4 5 6])
qed

section \<open>The identity goes last\<close>

text \<open>
  C9, as amended. In every run of the pipeline, of either worker, the deletion of the
  identity is the last call: when it is invoked, no other identity deletion precedes it and
  every other step has run before it. In the second worker the calls are then exactly the
  five relational deletes, the listing of the subject's namespace, one delete for each
  listed key, and the identity deletion. In the first worker the two \<open>select\<close> calls, the
  three deletes by \<open>user_id\<close> and the listing have been issued before it, and so have the
  delete of every row that a \<open>select\<close> returned and the delete of the listed keys when the
  listing returned some.
\<close>

theorem identity_deleted_last:
  "(list_ex is_identity_delete (calls_since w (snd (deleteUserData_v1 e uid w))) \<longrightarrow>
      last (calls_since w (snd (deleteUserData_v1 e uid w))) = AuthAdminDeleteUser uid \<and>
      \<not> list_ex is_identity_delete (butlast (calls_since w (snd (deleteUserData_v1 e uid w)))) \<and>
      set [Select replicate_predictions uid, Select replicate_trainings uid,
           DeleteEqUserId push_tokens uid, DeleteEqUserId user_credits uid,
           DeleteEqUserId transactions uid, BucketList (uid @ ''/'')]
        \<subseteq> set (butlast (calls_since w (snd (deleteUserData_v1 e uid w)))) \<and>
      (supabase_fault e (Select replicate_predictions uid) = Fulfilled \<longrightarrow>
         (\<forall>r\<in>set (rows_of replicate_predictions uid w).
            DeleteEqId replicate_predictions (row_id r)
              \<in> set (butlast (calls_since w (snd (deleteUserData_v1 e uid w)))))) \<and>
      (supabase_fault e (Select replicate_trainings uid) = Fulfilled \<longrightarrow>
         (\<forall>r\<in>set (rows_of replicate_trainings uid w).
            DeleteEqId replicate_trainings (row_id r)
              \<in> set (butlast (calls_since w (snd (deleteUserData_v1 e uid w)))))) \<and>
      (\<not> r2_rejects e (BucketList (uid @ ''/'')) \<and>
       first_page e uid (before_folder_v1 e uid w) \<noteq> [] \<longrightarrow>
         BucketDelete (first_page e uid (before_folder_v1 e uid w))
           \<in> set (butlast (calls_since w (snd (deleteUserData_v1 e uid w)))))) \<and>
   (list_ex is_identity_delete (calls_since w (snd (deleteUserData_v2 e uid w))) \<longrightarrow>
      calls_since w (snd (deleteUserData_v2 e uid w)) =
        [DeleteEqUserId replicate_predictions uid, DeleteEqUserId replicate_trainings uid,
         DeleteEqUserId push_tokens uid, DeleteEqUserId user_credits uid,
         DeleteEqUserId transactions uid, BucketList (uid @ ''/'')] @
        (if r2_rejects e (BucketList (uid @ ''/'')) then []
         else map (\<lambda>k. BucketDelete [k]) (first_page e uid w)) @
        [AuthAdminDeleteUser uid])"
proof (intro conjI impI)
  let ?pre = "seq (deletePredictions e uid)
         (seq (deleteTrainings e uid)
         (seq (deletePushToken e uid)
         (seq (deleteCoinsAndTransactions e uid)
              (deleteUserFolder e uid))))"
  let ?cs = "calls_since w (snd (deleteUserData_v1 e uid w))"
  assume a: "list_ex is_identity_delete ?cs"
  have eq: "?cs = step_calls trace (seq ?pre (deleteUserAuth e uid)) w"
    by (simp only: calls_since_step deleteUserData_v1_assoc)
  have auth: "\<And>s. trace (snd (deleteUserAuth e uid s)) = trace s @ [AuthAdminDeleteUser uid]"
    by (rule deleteUserAuth_calls)
  from identity_invoked [where tr = trace and pre = ?pre and auth = "deleteUserAuth e uid",
      OF attempts_before_auth_v1 auth] a
  have n: "fst (?pre w) = Normal"
    and cs: "?cs = step_calls trace ?pre w @ [AuthAdminDeleteUser uid]"
    unfolding eq by blast+
  have bl: "butlast ?cs = step_calls trace ?pre w"
    by (simp add: cs)
  note l = identity_last_v1 [OF a]
  note b = before_auth_v1_calls [OF n]
  show "last ?cs = AuthAdminDeleteUser uid"
    using l by blast
  show "\<not> list_ex is_identity_delete (butlast ?cs)"
    using l by blast
  show "set [Select replicate_predictions uid, Select replicate_trainings uid,
           DeleteEqUserId push_tokens uid, DeleteEqUserId user_credits uid,
           DeleteEqUserId transactions uid, BucketList (uid @ ''/'')]
        \<subseteq> set (butlast ?cs)"
    using l unfolding list.set by blast
  show "\<forall>r\<in>set (rows_of replicate_predictions uid w).
            DeleteEqId replicate_predictions (row_id r) \<in> set (butlast ?cs)"
    if "supabase_fault e (Select replicate_predictions uid) = Fulfilled"
    using b that unfolding bl by blast
  show "\<forall>r\<in>set (rows_of replicate_trainings uid w).
            DeleteEqId replicate_trainings (row_id r) \<in> set (butlast ?cs)"
    if "supabase_fault e (Select replicate_trainings uid) = Fulfilled"
    using b that unfolding bl by blast
  show "BucketDelete (first_page e uid (before_folder_v1 e uid w)) \<in> set (butlast ?cs)"
    if "\<not> r2_rejects e (BucketList (uid @ ''/'')) \<and>
        first_page e uid (before_folder_v1 e uid w) \<noteq> []"
    using b that unfolding bl by blast
next
  let ?pre = "seq (delete_rows_v2 e ''predictions'' replicate_predictions uid)
         (seq (delete_rows_v2 e ''trainings'' replicate_trainings uid)
         (seq (delete_rows_v2 e ''pushToken'' push_tokens uid)
         (seq (delete_rows_v2 e ''credits'' user_credits uid)
         (seq (delete_rows_v2 e ''transactions'' transactions uid)
              (r2_folder_v2 e uid)))))"
  let ?cs = "calls_since w (snd (deleteUserData_v2 e uid w))"
  assume a: "list_ex is_identity_delete ?cs"
  have eq: "?cs = step_calls (\<lambda>s. trace (snd s)) (seq ?pre (auth_v2 e uid)) ([], w)"
    by (simp only: calls_since_v2 deleteUserData_v2_try_assoc)
  have auth: "\<And>s. trace (snd (snd (auth_v2 e uid s))) = trace (snd s) @ [AuthAdminDeleteUser uid]"
    by (rule auth_v2_calls)
  from identity_invoked [where tr = "\<lambda>s. trace (snd s)" and pre = ?pre
      and auth = "auth_v2 e uid", OF attempts_before_auth_v2 auth] a
  have n: "fst (?pre ([], w)) = Normal"
    and cs: "?cs = step_calls (\<lambda>s. trace (snd s)) ?pre ([], w) @ [AuthAdminDeleteUser uid]"
    unfolding eq by blast+
  show "?cs =
        [DeleteEqUserId replicate_predictions uid, DeleteEqUserId replicate_trainings uid,
         DeleteEqUserId push_tokens uid, DeleteEqUserId user_credits uid,
         DeleteEqUserId transactions uid, BucketList (uid @ ''/'')] @
        (if r2_rejects e (BucketList (uid @ ''/'')) then []
         else map (\<lambda>k. BucketDelete [k]) (first_page e uid w)) @
        [AuthAdminDeleteUser uid]"
    unfolding cs before_auth_v2_calls [OF n] by simp
qed

text \<open>
  Both workers on a world where the subject has a prediction, a training and an object that
  no row refers to: the rows and the object are deleted before the identity is.
\<close>

theorem identity_deleted_last_witness:
  "last (calls_since roomy_world (snd (deleteUserData_v1 calm ''abc-123'' roomy_world)))
     = AuthAdminDeleteUser ''abc-123'' \<and>
   DeleteEqId replicate_predictions ''p1''
     \<in> set (butlast (calls_since roomy_world (snd (deleteUserData_v1 calm ''abc-123'' roomy_world)))) \<and>
   DeleteEqId replicate_trainings ''t1''
     \<in> set (butlast (calls_since roomy_world (snd (deleteUserData_v1 calm ''abc-123'' roomy_world)))) \<and>
   BucketDelete [''abc-123/extra.bin'']
     \<in> set (butlast (calls_since roomy_world (snd (deleteUserData_v1 calm ''abc-123'' roomy_world)))) \<and>
   calls_since roomy_world (snd (deleteUserData_v2 calm ''abc-123'' roomy_world)) =
     [DeleteEqUserId replicate_predictions ''abc-123'',
      DeleteEqUserId replicate_trainings ''abc-123'',
      DeleteEqUserId push_tokens ''abc-123'', DeleteEqUserId user_credits ''abc-123'',
      DeleteEqUserId transactions ''abc-123'', BucketList ''abc-123/'',
      BucketDelete [''abc-123/extra.bin''], BucketDelete [''abc-123/in.png''],
      AuthAdminDeleteUser ''abc-123'']"
proof -
  let ?cs1 = "calls_since roomy_world (snd (deleteUserData_v1 calm ''abc-123'' roomy_world))"
  let ?cs2 = "calls_since roomy_world (snd (deleteUserData_v2 calm ''abc-123'' roomy_world))"
  have 1: "list_ex is_identity_delete ?cs1"
    by (simp add: run_defs roomy_world_def)
  have 2: "list_ex is_identity_delete ?cs2"
    by (simp add: run_defs roomy_world_def)
  have 3: "supabase_fault calm (Select replicate_predictions ''abc-123'') = Fulfilled"
    "supabase_fault calm (Select replicate_trainings ''abc-123'') = Fulfilled"
    "\<not> r2_rejects calm (BucketList (''abc-123'' @ ''/''))"
    by (simp_all add: calm_def)
  have 4: "map row_id (rows_of replicate_predictions ''abc-123'' roomy_world) = [''p1'']"
    "map row_id (rows_of replicate_trainings ''abc-123'' roomy_world) = [''t1'']"
    by (simp_all add: rows_of_def roomy_world_def sample_world_def sample_db_def no_row_def)
  have 5: "first_page calm ''abc-123'' (before_folder_v1 calm ''abc-123'' roomy_world) =
           [''abc-123/extra.bin'']"
    by (simp add: first_page_def before_folder_v1_def run_defs roomy_world_def)
  have 6: "first_page calm ''abc-123'' roomy_world = [''abc-123/extra.bin'', ''abc-123/in.png'']"
    by (simp add: first_page_def run_defs roomy_world_def)
  note t = identity_deleted_last [of roomy_world calm "''abc-123''"]
  from t 1 have a: "last ?cs1 = AuthAdminDeleteUser ''abc-123''"
    by blast
  from t 1 3(1) have "\<forall>r\<in>set (rows_of replicate_predictions ''abc-123'' roomy_world).
      DeleteEqId replicate_predictions (row_id r) \<in> set (butlast ?cs1)"
    by blast
  then have "\<forall>i\<in>set (map row_id (rows_of replicate_predictions ''abc-123'' roomy_world)).
      DeleteEqId replicate_predictions i \<in> set (butlast ?cs1)"
    by simp
  then have b: "DeleteEqId replicate_predictions ''p1'' \<in> set (butlast ?cs1)"
    unfolding 4 by simp
  from t 1 3(2) have "\<forall>r\<in>set (rows_of replicate_trainings ''abc-123'' roomy_world).
      DeleteEqId replicate_trainings (row_id r) \<in> set (butlast ?cs1)"
    by blast
  then have "\<forall>i\<in>set (map row_id (rows_of replicate_trainings ''abc-123'' roomy_world)).
      DeleteEqId replicate_trainings i \<in> set (butlast ?cs1)"
    by simp
  then have c: "DeleteEqId replicate_trainings ''t1'' \<in> set (butlast ?cs1)"
    unfolding 4 by simp
  have "first_page calm ''abc-123'' (before_folder_v1 calm ''abc-123'' roomy_world) \<noteq> []"
    by (simp add: 5)
  with t 1 3(3) have "BucketDelete (first_page calm ''abc-123''
      (before_folder_v1 calm ''abc-123'' roomy_world)) \<in> set (butlast ?cs1)"
    by blast
  then have d: "BucketDelete [''abc-123/extra.bin''] \<in> set (butlast ?cs1)"
    by (simp only: 5)
  from t 2 have "?cs2 =
        [DeleteEqUserId replicate_predictions ''abc-123'',
         DeleteEqUserId replicate_trainings ''abc-123'',
         DeleteEqUserId push_tokens ''abc-123'', DeleteEqUserId user_credits ''abc-123'',
         DeleteEqUserId transactions ''abc-123'', BucketList (''abc-123'' @ ''/'')] @
        (if r2_rejects calm (BucketList (''abc-123'' @ ''/'')) then []
         else map (\<lambda>k. BucketDelete [k]) (first_page calm ''abc-123'' roomy_world)) @
        [AuthAdminDeleteUser ''abc-123'']"
    by blast
  then have e: "?cs2 =
     [DeleteEqUserId replicate_predictions ''abc-123'',
      DeleteEqUserId replicate_trainings ''abc-123'',
      DeleteEqUserId push_tokens ''abc-123'', DeleteEqUserId user_credits ''abc-123'',
      DeleteEqUserId transactions ''abc-123'', BucketList ''abc-123/'',
      BucketDelete [''abc-123/extra.bin''], BucketDelete [''abc-123/in.png''],
      AuthAdminDeleteUser ''abc-123'']"
    using 3(3) by (simp add: 6)
  from a b c d e show ?thesis by blast
qed

text \<open>
  C9 as stated fails in the first worker: when the \<open>select\<close> of the predictions comes back
  with an error, \<open>deletePredictions\<close> returns, no delete of that table is ever issued, the
  prediction \<open>p1\<close> stays, and the identity is deleted all the same.
\<close>

theorem select_error_skips_deletes_counterexample:
  "calls_since sample_world (snd (deleteUserData_v1 select_fails ''abc-123'' sample_world)) =
     [Select replicate_predictions ''abc-123'', Select replicate_trainings ''abc-123'',
      BucketDelete [''abc-123/set.zip''], DeleteEqId replicate_trainings ''t1'',
      DeleteEqUserId push_tokens ''abc-123'', DeleteEqUserId user_credits ''abc-123'',
      DeleteEqUserId transactions ''abc-123'', BucketList ''abc-123/'',
      BucketDelete [''abc-123/in.png'', ''abc-123/out.png''],
      AuthAdminDeleteUser ''abc-123''] \<and>
   map row_id (db (snd (deleteUserData_v1 select_fails ''abc-123'' sample_world))
                 replicate_predictions) = [''p1''] \<and>
   users (snd (deleteUserData_v1 select_fails ''abc-123'' sample_world)) = [''zed-9'']"
  by (simp add: run_defs select_fails_def)

section \<open>Failures of single steps\<close>

text \<open>
  C4, as amended. In the second worker, when the Supabase calls report their failures as
  \<open>error\<close> values (none of them rejects), each step's entry of the report depends on that
  step's own backend alone: \<open>error\<close> when its call came back with an error, \<open>success\<close>
  otherwise; a listing or a delete of the bucket that throws is caught by the inner \<open>try\<close>
  and reported as \<open>error\<close> under \<open>r2Folder\<close>. Whatever failed, every step is attempted: the
  five relational deletes, the listing, one delete for each listed key, and the deletion of
  the identity, in this order. In the first worker a rejected \<open>bucket.delete\<close> is caught by
  \<open>deleteR2Object\<close>, which throws only when \<open>new URL\<close> does.
\<close>

theorem reported_failures_are_isolated:
  assumes "no_reject e"
  shows "fst (deleteUserData_v2 e uid w) =
           [(''predictions'', reported e (DeleteEqUserId replicate_predictions uid)),
            (''trainings'', reported e (DeleteEqUserId replicate_trainings uid)),
            (''pushToken'', reported e (DeleteEqUserId push_tokens uid)),
            (''credits'', reported e (DeleteEqUserId user_credits uid)),
            (''transactions'', reported e (DeleteEqUserId transactions uid)),
            (''r2Folder'', r2_status e uid w),
            (''auth'', auth_status e uid w)] \<and>
         calls_since w (snd (deleteUserData_v2 e uid w)) =
           [DeleteEqUserId replicate_predictions uid, DeleteEqUserId replicate_trainings uid,
            DeleteEqUserId push_tokens uid, DeleteEqUserId user_credits uid,
            DeleteEqUserId transactions uid, BucketList (uid @ ''/'')] @
           (if r2_rejects e (BucketList (uid @ ''/'')) then []
            else map (\<lambda>k. BucketDelete [k]) (first_page e uid w)) @
           [AuthAdminDeleteUser uid] \<and>
         fst (deleteR2Object e url w) = (if url_pathname e url = None then Abrupt else Normal)"
  using deleteUserData_v2_no_reject(1,2) [OF assms, of uid w]
  by (simp add: deleteR2Object_completion)

text \<open>The trainings delete comes back with an error: the other six steps run and succeed.\<close>

theorem reported_failures_are_isolated_witness:
  "fst (deleteUserData_v2 trainings_fail ''abc-123'' sample_world) =
     [(''predictions'', ''success''), (''trainings'', ''error''), (''pushToken'', ''success''),
      (''credits'', ''success''), (''transactions'', ''success''), (''r2Folder'', ''success''),
      (''auth'', ''success'')] \<and>
   calls_since sample_world (snd (deleteUserData_v2 trainings_fail ''abc-123'' sample_world)) =
     [DeleteEqUserId replicate_predictions ''abc-123'',
      DeleteEqUserId replicate_trainings ''abc-123'',
      DeleteEqUserId push_tokens ''abc-123'', DeleteEqUserId user_credits ''abc-123'',
      DeleteEqUserId transactions ''abc-123'', BucketList ''abc-123/'',
      BucketDelete [''abc-123/in.png''], BucketDelete [''abc-123/out.png''],
      AuthAdminDeleteUser ''abc-123'']"
proof -
  have 1: "no_reject trainings_fail"
    by (simp add: no_reject_def trainings_fail_def calm_def)
  from reported_failures_are_isolated [OF 1, of "''abc-123''" sample_world "''''"]
  show ?thesis
    by (simp add: reported_def r2_status_def auth_status_def first_page_def namespace_def
          trainings_fail_def calm_def sample_world_def startsWith_def)
qed

text \<open>
  C4 as stated fails for a failure that is raised: when the predictions delete rejects, the
  outer \<open>catch\<close> of \<open>deleteUserData\<close> takes over, no step records \<open>error\<close>, and none of
  the six remaining steps is attempted.
\<close>

theorem rejected_step_aborts_pipeline_counterexample:
  "fst (deleteUserData_v2 predictions_reject ''abc-123'' sample_world) =
     [(''error'', ''Process failed'')] \<and>
   calls_since sample_world (snd (deleteUserData_v2 predictions_reject ''abc-123'' sample_world)) =
     [DeleteEqUserId replicate_predictions ''abc-123'']"
  by (simp add: run_defs predictions_reject_def)

section \<open>The subject's namespace in the bucket\<close>

text \<open>
  C8. When the listing of the subject's prefix returns no key, the bucket stanza of the
  second worker completes normally and records \<open>no files found\<close> under \<open>r2Folder\<close>, neither
  \<open>error\<close> nor \<open>success\<close>, and issues no delete; so does the whole pipeline when it gets to
  the stanza. \<open>deleteUserFolder\<close> of the first worker completes normally after the listing.
\<close>

theorem empty_listing_is_no_files_found:
  assumes "fst (bucket_list e (uid @ ''/'') w) = Value []"
  shows "r2_folder_v2 e uid (results, w) =
           (Normal, AList.update ''r2Folder'' ''no files found'' results,
            issue (BucketList (uid @ ''/'')) w) \<and>
         deleteUserFolder e uid w = (Normal, issue (BucketList (uid @ ''/'')) w) \<and>
         (no_reject e \<longrightarrow>
            map_of (fst (deleteUserData_v2 e uid w)) ''r2Folder'' = Some ''no files found'')"
proof -
  have l: "bucket_list e (uid @ ''/'') w = (Value [], issue (BucketList (uid @ ''/'')) w)"
    using assms by (simp add: bucket_list_def Let_def split: if_splits)
  have s: "r2_status e uid w = ''no files found''"
    using assms
    by (simp add: bucket_list_def Let_def r2_status_def first_page_def namespace_def
             split: if_splits)
  show ?thesis
    using deleteUserData_v2_no_reject(1) [of e uid w]
    by (simp add: r2_folder_v2_def deleteUserFolder_def l s)
qed

text \<open>Nobody's namespace is empty.\<close>

theorem empty_listing_is_no_files_found_witness:
  "r2_folder_v2 calm ''nobody'' ([], sample_world) =
     (Normal, [(''r2Folder'', ''no files found'')], issue (BucketList ''nobody/'') sample_world) \<and>
   deleteUserFolder calm ''nobody'' sample_world =
     (Normal, issue (BucketList ''nobody/'') sample_world) \<and>
   map_of (fst (deleteUserData_v2 calm ''nobody'' sample_world)) ''r2Folder'' =
     Some ''no files found''"
proof -
  have 1: "fst (bucket_list calm (''nobody'' @ ''/'') sample_world) = Value []"
    by (simp add: bucket_list_def calm_def sample_world_def startsWith_def)
  have 2: "no_reject calm"
    by (simp add: no_reject_def calm_def)
  from empty_listing_is_no_files_found [OF 1, of "[]"] 2
  show ?thesis by simp
qed

text \<open>
  C1, as amended. The erasure of the namespace issues one listing call and no further one:
  there is no continuation. When no call to the bucket fails, it deletes the keys of that
  one page (in one call in the first worker, in one call per key in the second) and the
  namespace loses exactly those keys; when the namespace fits in one page, nothing of it
  remains.
\<close>

theorem one_listing_page_is_erased:
  assumes "\<forall>c. \<not> r2_rejects e c"
  shows "calls_since w (snd (deleteUserFolder e uid w)) =
           BucketList (uid @ ''/'') #
             (if first_page e uid w = [] then [] else [BucketDelete (first_page e uid w)]) \<and>
         namespace uid (snd (deleteUserFolder e uid w)) =
           filter (\<lambda>k. k \<notin> set (first_page e uid w)) (namespace uid w) \<and>
         calls_since w (snd (snd (r2_folder_v2 e uid (results, w)))) =
           BucketList (uid @ ''/'') # map (\<lambda>k. BucketDelete [k]) (first_page e uid w) \<and>
         namespace uid (snd (snd (r2_folder_v2 e uid (results, w)))) =
           filter (\<lambda>k. k \<notin> set (first_page e uid w)) (namespace uid w) \<and>
         (length (namespace uid w) \<le> page_limit e \<longrightarrow>
            namespace uid (snd (deleteUserFolder e uid w)) = [] \<and>
            namespace uid (snd (snd (r2_folder_v2 e uid (results, w)))) = [])"
proof -
  have v1c: "calls_since w (snd (deleteUserFolder e uid w)) =
           BucketList (uid @ ''/'') #
             (if first_page e uid w = [] then [] else [BucketDelete (first_page e uid w)])"
    using assms
    by (simp add: deleteUserFolder_def bucket_list_def bucket_delete_def Let_def
          first_page_def namespace_def)
  have v1b: "bucket (snd (deleteUserFolder e uid w)) =
           filter (\<lambda>k. k \<notin> set (first_page e uid w)) (bucket w)"
    using assms
    by (simp add: deleteUserFolder_def bucket_list_def bucket_delete_def Let_def
          first_page_def namespace_def issue_def)
  obtain w' where r: "r2_folder_v2 e uid (results, w) =
          (Normal, AList.update ''r2Folder'' (r2_status e uid w) results, w')"
    "trace w' = trace w @ BucketList (uid @ ''/'') # map (\<lambda>k. BucketDelete [k]) (first_page e uid w)"
    "bucket w' = filter (\<lambda>k. k \<notin> set (first_page e uid w)) (bucket w)"
    using r2_folder_v2_result [of e uid results w] assms by auto
  have v1n: "namespace uid (snd (deleteUserFolder e uid w)) =
           filter (\<lambda>k. k \<notin> set (first_page e uid w)) (namespace uid w)"
    by (simp add: namespace_def v1b conj_commute)
  have v2n: "namespace uid (snd (snd (r2_folder_v2 e uid (results, w)))) =
           filter (\<lambda>k. k \<notin> set (first_page e uid w)) (namespace uid w)"
    by (simp add: namespace_def r conj_commute)
  have small: "length (namespace uid w) \<le> page_limit e \<Longrightarrow>
           filter (\<lambda>k. k \<notin> set (first_page e uid w)) (namespace uid w) = []"
    by (simp add: first_page_def)
  show ?thesis
    using v1c v1n v2n small by (simp add: r)
qed

text \<open>The namespace of \<open>zed-9\<close> holds one key, and a page holds two.\<close>

theorem one_listing_page_is_erased_witness:
  "namespace ''zed-9'' (snd (deleteUserFolder calm ''zed-9'' sample_world)) = [] \<and>
   namespace ''zed-9'' (snd (snd (r2_folder_v2 calm ''zed-9'' ([], sample_world)))) = [] \<and>
   calls_since sample_world (snd (deleteUserFolder calm ''zed-9'' sample_world)) =
     [BucketList ''zed-9/'', BucketDelete [''zed-9/in.png'']]"
proof -
  have 1: "\<forall>c. \<not> r2_rejects calm c"
    by (simp add: calm_def)
  have 2: "length (namespace ''zed-9'' sample_world) \<le> page_limit calm"
    by (simp add: namespace_def sample_world_def calm_def startsWith_def)
  have 3: "first_page calm ''zed-9'' sample_world = [''zed-9/in.png'']"
    by (simp add: first_page_def namespace_def sample_world_def calm_def startsWith_def)
  note t = one_listing_page_is_erased [OF 1, of sample_world "''zed-9''" "[]"]
  from t 2 have a: "namespace ''zed-9'' (snd (deleteUserFolder calm ''zed-9'' sample_world)) = [] \<and>
      namespace ''zed-9'' (snd (snd (r2_folder_v2 calm ''zed-9'' ([], sample_world)))) = []"
    by blast
  from t have "calls_since sample_world (snd (deleteUserFolder calm ''zed-9'' sample_world)) =
      BucketList (''zed-9'' @ ''/'') #
        (if first_page calm ''zed-9'' sample_world = [] then []
         else [BucketDelete (first_page calm ''zed-9'' sample_world)])"
    by blast
  then have b: "calls_since sample_world (snd (deleteUserFolder calm ''zed-9'' sample_world)) =
      [BucketList ''zed-9/'', BucketDelete [''zed-9/in.png'']]"
    by (simp add: 3)
  from a b show ?thesis by blast
qed

text \<open>
  C1 as stated fails for a namespace of more than one page: \<open>abc-123\<close> has three keys, a
  page holds two, and the third key is still there after the step, in both workers.
\<close>

theorem second_page_survives_counterexample:
  "page_limit calm < length (namespace ''abc-123'' sample_world) \<and>
   namespace ''abc-123'' (snd (deleteUserFolder calm ''abc-123'' sample_world)) =
     [''abc-123/set.zip''] \<and>
   namespace ''abc-123'' (snd (snd (r2_folder_v2 calm ''abc-123'' ([], sample_world)))) =
     [''abc-123/set.zip'']"
  by (simp add: run_defs)

section \<open>Requests without a valid bearer token\<close>

text \<open>
  C2, as amended. A POST request whose Authorization header is missing or does not start
  with \<open>Bearer \<close>, or whose token the identity provider does not resolve to a live identity,
  issues no delete call to any backend, in either worker. The first worker answers it 401.
  The second worker answers it 401 too, unless the header carries the Bearer scheme and the
  body does not parse (or parses to \<open>null\<close>): the body is read before the token is verified,
  and the answer is then 500.
\<close>

theorem no_valid_token_no_delete:
  assumes "http_method req = ''POST''"
    and "authorization req = None \<or>
         (\<exists>h. authorization req = Some h \<and>
              (\<not> startsWith h ''Bearer '' \<or> unresolved e w (bearer h)))"
  shows "status (fst (fetch_v1 e req w)) = Some 401 \<and>
         filter is_delete (calls_since w (snd (fetch_v1 e req w))) = [] \<and>
         status (fst (fetch_v2 e req w)) =
           Some (if (\<exists>h. authorization req = Some h \<and> startsWith h ''Bearer '') \<and>
                    (body req = Malformed \<or> body req = JsonNull)
                 then 500 else 401) \<and>
         filter is_delete (calls_since w (snd (fetch_v2 e req w))) = []"
proof (cases "\<exists>h. authorization req = Some h \<and> startsWith h ''Bearer ''")
  case True
  then obtain h where h: "authorization req = Some h" "startsWith h ''Bearer ''" by blast
  with assms(2) have u: "unresolved e w (bearer h)" by auto
  show ?thesis
    using bad_token_v1 [OF assms(1) h u] bad_token_v2 [OF assms(1) h u] h
    by simp
next
  case False
  then have n: "authorization req = None \<or>
      (\<exists>h. authorization req = Some h \<and> \<not> startsWith h ''Bearer '')"
    using assms(2) by auto
  show ?thesis
    using no_header_v1 [OF assms(1) n] no_header_v2 [OF assms(1) n] False
    by simp
qed

text \<open>A token of no session, with a well-formed body: 401 from both workers.\<close>

theorem no_valid_token_no_delete_witness:
  "status (fst (fetch_v1 calm (post (Some ''Bearer nobody'') (JsonValue (Str ''abc-123''))) sample_world))
     = Some 401 \<and>
   filter is_delete (calls_since sample_world
     (snd (fetch_v1 calm (post (Some ''Bearer nobody'') (JsonValue (Str ''abc-123''))) sample_world))) = [] \<and>
   status (fst (fetch_v2 calm (post (Some ''Bearer nobody'') (JsonValue (Str ''abc-123''))) sample_world))
     = Some 401 \<and>
   filter is_delete (calls_since sample_world
     (snd (fetch_v2 calm (post (Some ''Bearer nobody'') (JsonValue (Str ''abc-123''))) sample_world))) = []"
proof -
  let ?req = "post (Some ''Bearer nobody'') (JsonValue (Str ''abc-123''))"
  have 1: "http_method ?req = ''POST''"
    by (simp add: post_def)
  have u: "unresolved calm sample_world (bearer ''Bearer nobody'')"
    by (simp add: run_defs)
  have 2: "authorization ?req = None \<or>
         (\<exists>h. authorization ?req = Some h \<and>
              (\<not> startsWith h ''Bearer '' \<or> unresolved calm sample_world (bearer h)))"
    using u by (simp add: post_def)
  have 3: "body ?req = JsonValue (Str ''abc-123'')"
    by (simp add: post_def)
  from no_valid_token_no_delete [OF 1 2] 3
  show ?thesis by simp
qed

text \<open>
  C2 as stated fails in the second worker: the token resolves to no identity, the body is
  not JSON, and the answer is 500, not 401.
\<close>

theorem bad_token_bad_body_is_500_counterexample:
  "unresolved calm sample_world (bearer ''Bearer nobody'') \<and>
   status (fst (fetch_v2 calm (post (Some ''Bearer nobody'') Malformed) sample_world)) = Some 500"
  by (simp add: run_defs)

section \<open>Requests that are authenticated and authorized\<close>

text \<open>
  C6. A POST request with a bearer token that resolves to an identity, and a body whose
  \<open>user_id\<close> equals the identity's id up to case, is accepted by both workers: each runs
  \<open>deleteUserData\<close> for the lower-cased \<open>user_id\<close>; the second worker answers 200 with the
  report, the first worker answers 200, or 500 when the pipeline throws, never 401 or 403.
  The identity's id is not the empty string: no identity provider issues such an id.
\<close>

theorem same_subject_up_to_case_is_accepted:
  assumes "http_method req = ''POST''"
    and "authorization req = Some h"
    and "startsWith h ''Bearer ''"
    and "resolves e w (bearer h) uid"
    and "uid \<noteq> []"
    and "body req = JsonValue (Str s)"
    and "toLowerCase s = toLowerCase uid"
  shows "fst (fetch_v2 e req w) =
           Response 200 (Deleted (fst (deleteUserData_v2 e (toLowerCase s)
                                         (issue (AuthGetUser (bearer h)) w)))) \<and>
         snd (fetch_v2 e req w) =
           snd (deleteUserData_v2 e (toLowerCase s) (issue (AuthGetUser (bearer h)) w)) \<and>
         status (fst (fetch_v1 e req w)) =
           Some (case fst (deleteUserData_v1 e (toLowerCase s)
                             (issue (AuthGetUser (bearer h)) w)) of
                   Normal \<Rightarrow> 200 | Abrupt \<Rightarrow> 500) \<and>
         snd (fetch_v1 e req w) =
           snd (deleteUserData_v1 e (toLowerCase s) (issue (AuthGetUser (bearer h)) w))"
proof -
  have s: "s \<noteq> []"
    by (rule lower_not_Nil [OF assms(7,5)])
  have v2: "fetch_v2 e req w =
           (case deleteUserData_v2 e (toLowerCase s) (issue (AuthGetUser (bearer h)) w) of
              (result, w'') \<Rightarrow> (Response 200 (Deleted result), w''))"
    by (rule accepted_v2 [OF assms(1,2,3,4,6,7)])
  have v1: "fetch_v1 e req w =
           (case deleteUserData_v1 e (toLowerCase s) (issue (AuthGetUser (bearer h)) w) of
              (Normal, w'') \<Rightarrow> (Response 200 (Text ''User data deleted successfully''), w'')
            | (Abrupt, w'') \<Rightarrow> (Response 500 (Text ''Error deleting user data''), w''))"
    by (rule accepted_v1 [OF assms(1,2,3,4,6,7) s])
  show ?thesis
    by (auto simp: v1 v2 case_prod_beta split: completion.splits)
qed

text \<open>The body says \<open>ABC-123\<close>, the identity is \<open>abc-123\<close>.\<close>

theorem same_subject_up_to_case_is_accepted_witness:
  "fst (fetch_v2 calm (post (Some ''Bearer tok'') (JsonValue (Str ''ABC-123''))) sample_world) =
     Response 200 (Deleted [(''predictions'', ''success''), (''trainings'', ''success''),
       (''pushToken'', ''success''), (''credits'', ''success''), (''transactions'', ''success''),
       (''r2Folder'', ''success''), (''auth'', ''success'')]) \<and>
   status (fst (fetch_v1 calm (post (Some ''Bearer tok'') (JsonValue (Str ''ABC-123''))) sample_world))
     = Some 200"
proof -
  let ?req = "post (Some ''Bearer tok'') (JsonValue (Str ''ABC-123''))"
  have 1: "http_method ?req = ''POST''"
    by (simp add: post_def)
  have 2: "authorization ?req = Some ''Bearer tok''"
    by (simp add: post_def)
  have 3: "startsWith ''Bearer tok'' ''Bearer ''"
    by (simp add: startsWith_def)
  have 4: "resolves calm sample_world (bearer ''Bearer tok'') ''abc-123''"
    by (simp add: run_defs)
  have 5: "''abc-123'' \<noteq> []"
    by simp
  have 6: "body ?req = JsonValue (Str ''ABC-123'')"
    by (simp add: post_def)
  have 7: "toLowerCase ''ABC-123'' = toLowerCase ''abc-123''"
    by (simp add: sample_lower)
  have 8: "fst (deleteUserData_v2 calm ''abc-123''
                  (issue (AuthGetUser (bearer ''Bearer tok'')) sample_world)) =
           [(''predictions'', ''success''), (''trainings'', ''success''),
            (''pushToken'', ''success''), (''credits'', ''success''), (''transactions'', ''success''),
            (''r2Folder'', ''success''), (''auth'', ''success'')]"
    by (simp add: run_defs)
  have 9: "fst (deleteUserData_v1 calm ''abc-123''
                  (issue (AuthGetUser (bearer ''Bearer tok'')) sample_world)) = Normal"
    by (simp add: run_defs)
  from same_subject_up_to_case_is_accepted [OF 1 2 3 4 5 6 7] 8 9
  show ?thesis by (simp add: sample_lower)
qed

text \<open>
  C5, as amended. A request that passed authentication and authorization is answered 200 by
  the second worker, whatever failed in the pipeline, and the body of the answer is the
  report. The first worker answers 200 when no exception leaves \<open>deleteUserData\<close>, which is
  so whenever no Supabase call rejects and every URL made of the subject's rows parses,
  whatever \<open>error\<close> values come back and whatever the bucket rejects; it answers 500 when an
  exception leaves \<open>deleteUserData\<close>.
\<close>

theorem authorized_request_is_200:
  assumes "http_method req = ''POST''"
    and "authorization req = Some h"
    and "startsWith h ''Bearer ''"
    and "resolves e w (bearer h) uid"
    and "body req = JsonValue (Str s)"
    and "toLowerCase s = toLowerCase uid"
  shows "status (fst (fetch_v2 e req w)) = Some 200 \<and>
         fst (fetch_v2 e req w) =
           Response 200 (Deleted (fst (deleteUserData_v2 e (toLowerCase s)
                                         (issue (AuthGetUser (bearer h)) w)))) \<and>
         (s \<noteq> [] \<longrightarrow>
            status (fst (fetch_v1 e req w)) =
              Some (case fst (deleteUserData_v1 e (toLowerCase s)
                                (issue (AuthGetUser (bearer h)) w)) of
                      Normal \<Rightarrow> 200 | Abrupt \<Rightarrow> 500)) \<and>
         (s \<noteq> [] \<and> no_reject e \<and> urls_parse e (toLowerCase s) w \<longrightarrow>
            status (fst (fetch_v1 e req w)) = Some 200)"
proof -
  have v2: "fst (fetch_v2 e req w) =
           Response 200 (Deleted (fst (deleteUserData_v2 e (toLowerCase s)
                                         (issue (AuthGetUser (bearer h)) w))))"
    by (simp add: accepted_v2 [OF assms] case_prod_beta)
  have v1: "s \<noteq> [] \<Longrightarrow> fetch_v1 e req w =
           (case deleteUserData_v1 e (toLowerCase s) (issue (AuthGetUser (bearer h)) w) of
              (Normal, w'') \<Rightarrow> (Response 200 (Text ''User data deleted successfully''), w'')
            | (Abrupt, w'') \<Rightarrow> (Response 500 (Text ''Error deleting user data''), w''))"
    by (rule accepted_v1 [OF assms])
  have n: "no_reject e \<Longrightarrow> urls_parse e (toLowerCase s) w \<Longrightarrow>
           fst (deleteUserData_v1 e (toLowerCase s) (issue (AuthGetUser (bearer h)) w)) = Normal"
    by (rule deleteUserData_v1_Normal) simp_all
  show ?thesis
    using v1 n by (auto simp: v2 case_prod_beta split: completion.splits)
qed

text \<open>Every Supabase call of the pipeline comes back with an error, the bucket rejects: 200.\<close>

theorem authorized_request_is_200_witness:
  "status (fst (fetch_v2 storm (post (Some ''Bearer tok'') (JsonValue (Str ''abc-123''))) sample_world))
     = Some 200 \<and>
   status (fst (fetch_v1 storm (post (Some ''Bearer tok'') (JsonValue (Str ''abc-123''))) sample_world))
     = Some 200"
proof -
  let ?req = "post (Some ''Bearer tok'') (JsonValue (Str ''abc-123''))"
  have 1: "http_method ?req = ''POST''"
    by (simp add: post_def)
  have 2: "authorization ?req = Some ''Bearer tok''"
    by (simp add: post_def)
  have 3: "startsWith ''Bearer tok'' ''Bearer ''"
    by (simp add: startsWith_def)
  have 4: "resolves storm sample_world (bearer ''Bearer tok'') ''abc-123''"
    by (simp add: run_defs storm_def)
  have 5: "body ?req = JsonValue (Str ''abc-123'')"
    by (simp add: post_def)
  have 6: "toLowerCase ''abc-123'' = toLowerCase ''abc-123''"
    by simp
  have 7: "''abc-123'' \<noteq> []"
    by simp
  have 8: "no_reject storm"
    by (simp add: no_reject_def storm_def calm_def split: call.splits)
  have 9: "urls_parse storm (toLowerCase ''abc-123'') sample_world"
    by (simp add: urls_parse_def stored_urls_def prediction_urls_def training_urls_def
          run_defs storm_def sample_lower)
  from authorized_request_is_200 [OF 1 2 3 4 5 6] 7 8 9
  show ?thesis by blast
qed

text \<open>
  C5 as stated fails in the first worker: a training with null \<open>input_images\<close> makes
  \<open>new URL\<close> throw outside the \<open>try\<close> of \<open>deleteR2Object\<close>, and the answer is 500.
\<close>

theorem unparsable_url_is_500_counterexample:
  "resolves calm null_images_world (bearer ''Bearer tok'') ''abc-123'' \<and>
   toLowerCase ''abc-123'' = toLowerCase ''abc-123'' \<and>
   status (fst (fetch_v1 calm (post (Some ''Bearer tok'') (JsonValue (Str ''abc-123'')))
                  null_images_world)) = Some 500"
  by (simp add: run_defs null_images_world_def sample_lower)

section \<open>Asking twice\<close>




end
